theory Spec2Isabelle
  imports Complex_Main "HOL-Library.AList" "HOL-Library.List_Lexorder" "HOL-Library.Char_ord"
    "HOL-Library.Multiset"
begin

section \<open>Python values, strings and dictionaries\<close>

text \<open>
  The values that flow through the pipeline are what \<^verbatim>\<open>json.loads\<close> can build and what the
  code itself writes into a dictionary: \<^verbatim>\<open>None\<close>, booleans, integers, floats, strings, lists
  and dictionaries. A float is \<^verbatim>\<open>NaN\<close>, an infinity or a finite value; a finite float is the
  rational number it denotes, and the sign of zero is not kept. A Python \<^verbatim>\<open>str\<close> is a
  \<^typ>\<open>string\<close>: the model covers the code points below 256. A dictionary is an association
  list in insertion order with distinct keys.
\<close>

datatype pyfloat = NaN | PosInf | NegInf | Finite rat

datatype pyval =
    PNone
  | PBool bool
  | PInt int
  | PFloat pyfloat
  | PStr string
  | PList "pyval list"
  | PDict "(string \<times> pyval) list"

type_synonym pydict = "(string \<times> pyval) list"

text \<open>The exceptions that the modelled code can raise or catch.\<close>

datatype pyerr = JSONDecodeError | AttributeError | TypeError | KeyError | RequestException | ValueError

text \<open>\<^verbatim>\<open>d.get(k, default)\<close>, \<^verbatim>\<open>k in d\<close> and \<^verbatim>\<open>d[k] = v\<close>.\<close>

definition dict_get :: "pydict \<Rightarrow> string \<Rightarrow> pyval \<Rightarrow> pyval" where
  "dict_get d k dflt = (case map_of d k of None \<Rightarrow> dflt | Some v \<Rightarrow> v)"

definition dict_has :: "pydict \<Rightarrow> string \<Rightarrow> bool" where
  "dict_has d k = (map_of d k \<noteq> None)"

definition dict_set :: "pydict \<Rightarrow> string \<Rightarrow> pyval \<Rightarrow> pydict" where
  "dict_set d k v = AList.update k v d"

text \<open>
  \<^verbatim>\<open>str.lower()\<close> on code points below 256: the upper-case letters are A-Z and
  U+00C0-U+00DE without the multiplication sign U+00D7; each has its lower-case form 32 above.
\<close>

definition lower_char :: "char \<Rightarrow> char" where
  "lower_char c = (let n = (of_char c :: nat) in
     if (65 \<le> n \<and> n \<le> 90) \<or> (192 \<le> n \<and> n \<le> 222 \<and> n \<noteq> 215)
     then char_of (n + 32) else c)"

definition lower :: "string \<Rightarrow> string" where
  "lower s = map lower_char s"

text \<open>\<^verbatim>\<open>s.startswith(p)\<close> and the substring test \<^verbatim>\<open>sub in s\<close>.\<close>

fun startswith :: "string \<Rightarrow> string \<Rightarrow> bool" where
  "startswith s [] = True"
| "startswith [] (p # ps) = False"
| "startswith (c # cs) (p # ps) = (c = p \<and> startswith cs ps)"

fun str_in :: "string \<Rightarrow> string \<Rightarrow> bool" where
  "str_in sub [] = (sub = [])"
| "str_in sub (c # cs) = (startswith (c # cs) sub \<or> str_in sub cs)"

section \<open>Comparing Python values\<close>


fun py_num :: "pyval \<Rightarrow> pyfloat option" where
  "py_num (PInt i) = Some (Finite (of_int i))"
| "py_num (PBool b) = Some (Finite (if b then 1 else 0))"
| "py_num (PFloat f) = Some f"
| "py_num _ = None"

fun float_lt :: "pyfloat \<Rightarrow> pyfloat \<Rightarrow> bool" where
  "float_lt NaN y = False"
| "float_lt x NaN = False"
| "float_lt PosInf y = False"
| "float_lt NegInf y = (y \<noteq> NegInf)"
| "float_lt (Finite r) PosInf = True"
| "float_lt (Finite r) NegInf = False"
| "float_lt (Finite r) (Finite q) = (r < q)"

definition float_eq :: "pyfloat \<Rightarrow> pyfloat \<Rightarrow> bool" where
  "float_eq x y = (x \<noteq> NaN \<and> x = y)"

fun py_eq :: "pyval \<Rightarrow> pyval \<Rightarrow> bool"
  and py_eq_list :: "pyval list \<Rightarrow> pyval list \<Rightarrow> bool"
  and py_eq_items :: "(string \<times> pyval) list \<Rightarrow> (string \<times> pyval) list \<Rightarrow> bool" where
  "py_eq (PInt i) b = (case py_num b of Some y \<Rightarrow> float_eq (Finite (of_int i)) y | None \<Rightarrow> False)"
| "py_eq (PBool c) b =
     (case py_num b of Some y \<Rightarrow> float_eq (Finite (if c then 1 else 0)) y | None \<Rightarrow> False)"
| "py_eq (PFloat f) b = (case py_num b of Some y \<Rightarrow> float_eq f y | None \<Rightarrow> False)"
| "py_eq PNone b = (b = PNone)"
| "py_eq (PStr s) b = (b = PStr s)"
| "py_eq (PList xs) b = (case b of PList ys \<Rightarrow> py_eq_list xs ys | _ \<Rightarrow> False)"
| "py_eq (PDict d) b =
     (case b of PDict d' \<Rightarrow> length d = length d' \<and> py_eq_items d d' | _ \<Rightarrow> False)"
| "py_eq_list [] ys = (ys = [])"
| "py_eq_list (x # xs) ys =
     (case ys of [] \<Rightarrow> False | y # ys' \<Rightarrow> py_eq x y \<and> py_eq_list xs ys')"
| "py_eq_items [] d' = True"
| "py_eq_items (kv # r) d' =
     ((case map_of d' (fst kv) of None \<Rightarrow> False | Some v' \<Rightarrow> py_eq (snd kv) v')
      \<and> py_eq_items r d')"

fun str_lt :: "string \<Rightarrow> string \<Rightarrow> bool" where
  "str_lt [] [] = False"
| "str_lt [] (b # bs) = True"
| "str_lt (a # as) [] = False"
| "str_lt (a # as) (b # bs) =
     ((of_char a :: nat) < of_char b \<or> (a = b \<and> str_lt as bs))"

definition num_lt :: "pyfloat \<Rightarrow> pyval \<Rightarrow> pyerr + bool" where
  "num_lt x b = (case py_num b of Some y \<Rightarrow> Inr (float_lt x y) | None \<Rightarrow> Inl TypeError)"

fun py_lt :: "pyval \<Rightarrow> pyval \<Rightarrow> pyerr + bool"
  and py_lt_list :: "pyval list \<Rightarrow> pyval list \<Rightarrow> pyerr + bool" where
  "py_lt (PInt i) b = num_lt (Finite (of_int i)) b"
| "py_lt (PBool c) b = num_lt (Finite (if c then 1 else 0)) b"
| "py_lt (PFloat f) b = num_lt f b"
| "py_lt (PStr s) b = (case b of PStr s' \<Rightarrow> Inr (str_lt s s') | _ \<Rightarrow> Inl TypeError)"
| "py_lt (PList xs) b = (case b of PList ys \<Rightarrow> py_lt_list xs ys | _ \<Rightarrow> Inl TypeError)"
| "py_lt PNone b = Inl TypeError"
| "py_lt (PDict d) b = Inl TypeError"
| "py_lt_list [] ys = Inr (ys \<noteq> [])"
| "py_lt_list (x # xs) ys =
     (case ys of [] \<Rightarrow> Inr False
      | y # ys' \<Rightarrow> if py_eq x y then py_lt_list xs ys' else py_lt x y)"

definition num_ge :: "pyfloat \<Rightarrow> pyval \<Rightarrow> pyerr + bool" where
  "num_ge x b =
     (case py_num b of Some y \<Rightarrow> Inr (float_lt y x \<or> float_eq x y) | None \<Rightarrow> Inl TypeError)"

fun py_ge :: "pyval \<Rightarrow> pyval \<Rightarrow> pyerr + bool"
  and py_ge_list :: "pyval list \<Rightarrow> pyval list \<Rightarrow> pyerr + bool" where
  "py_ge (PInt i) b = num_ge (Finite (of_int i)) b"
| "py_ge (PBool c) b = num_ge (Finite (if c then 1 else 0)) b"
| "py_ge (PFloat f) b = num_ge f b"
| "py_ge (PStr s) b = (case b of PStr s' \<Rightarrow> Inr (\<not> str_lt s s') | _ \<Rightarrow> Inl TypeError)"
| "py_ge (PList xs) b = (case b of PList ys \<Rightarrow> py_ge_list xs ys | _ \<Rightarrow> Inl TypeError)"
| "py_ge PNone b = Inl TypeError"
| "py_ge (PDict d) b = Inl TypeError"
| "py_ge_list [] ys = Inr (ys = [])"
| "py_ge_list (x # xs) ys =
     (case ys of [] \<Rightarrow> Inr True
      | y # ys' \<Rightarrow> if py_eq x y then py_ge_list xs ys' else py_ge x y)"

section \<open>Sorting by score (\<^verbatim>\<open>list.sort(key=..., reverse=True)\<close>)\<close>

text \<open>
  \<^verbatim>\<open>list.sort\<close> first computes the key of every element, then sorts the keyed elements with
  \<^verbatim>\<open><\<close> only; it is stable, also with \<^verbatim>\<open>reverse=True\<close>. On keys that \<^verbatim>\<open><\<close> orders, every
  stable sort returns the same list, so the model inserts each element, from the last to the
  first, before the first element whose key is not greater. A comparison that raises ends the
  sort with its exception. On keys that \<^verbatim>\<open><\<close> does not order, such as \<^verbatim>\<open>NaN\<close>, the list
  returned is the one these comparisons give.
\<close>

fun insort_desc :: "pyval \<times> 'a \<Rightarrow> (pyval \<times> 'a) list \<Rightarrow> pyerr + (pyval \<times> 'a) list" where
  "insort_desc x [] = Inr [x]"
| "insort_desc x (y # ys) =
     (case py_lt (fst x) (fst y) of
        Inl e \<Rightarrow> Inl e
      | Inr lt \<Rightarrow>
          if lt then (case insort_desc x ys of Inl e \<Rightarrow> Inl e | Inr zs \<Rightarrow> Inr (y # zs))
          else Inr (x # y # ys))"

fun sort_desc :: "(pyval \<times> 'a) list \<Rightarrow> pyerr + (pyval \<times> 'a) list" where
  "sort_desc [] = Inr []"
| "sort_desc (x # xs) =
     (case sort_desc xs of Inl e \<Rightarrow> Inl e | Inr ys \<Rightarrow> insort_desc x ys)"

text \<open>The key \<^verbatim>\<open>lambda x: x['score']\<close>: a missing key raises \<^verbatim>\<open>KeyError\<close>.\<close>

fun score_keys :: "pydict list \<Rightarrow> pyerr + (pyval \<times> pydict) list" where
  "score_keys [] = Inr []"
| "score_keys (x # xs) =
     (case map_of x ''score'' of
        None \<Rightarrow> Inl KeyError
      | Some k \<Rightarrow> (case score_keys xs of Inl e \<Rightarrow> Inl e | Inr ks \<Rightarrow> Inr ((k, x) # ks)))"

definition sort_by_score :: "pydict list \<Rightarrow> pyerr + pydict list" where
  "sort_by_score xs =
     (case score_keys xs of
        Inl e \<Rightarrow> Inl e
      | Inr ks \<Rightarrow> (case sort_desc ks of Inl e \<Rightarrow> Inl e | Inr ss \<Rightarrow> Inr (map snd ss)))"

section \<open>Heuristic scorer (\<^verbatim>\<open>calculate_growth_score\<close>, utils.py)\<close>

text \<open>
  \<^verbatim>\<open>startup.get(k, '').lower()\<close>: a value that is not a string has no \<^verbatim>\<open>lower\<close> method
  and the call raises \<^verbatim>\<open>AttributeError\<close>.
\<close>

definition get_lower :: "pydict \<Rightarrow> string \<Rightarrow> pyerr + string" where
  "get_lower d k = (case dict_get d k (PStr []) of PStr s \<Rightarrow> Inr (lower s) | _ \<Rightarrow> Inl AttributeError)"

definition calculate_growth_score :: "pydict \<Rightarrow> pyerr + int" where
  "calculate_growth_score startup =
     (let score = 50 in
      (case get_lower startup ''funding_stage'' of Inl e \<Rightarrow> Inl e | Inr funding_stage \<Rightarrow>
      (let score = (if str_in ''seed'' funding_stage then score + 10
                    else if str_in ''series a'' funding_stage then score + 15
                    else if str_in ''series b'' funding_stage then score + 20
                    else score) in
      (case get_lower startup ''signal_type'' of Inl e \<Rightarrow> Inl e | Inr signal_type \<Rightarrow>
      (let score = (if str_in ''funding'' signal_type then score + 15
                    else if str_in ''partnership'' signal_type then score + 12
                    else if str_in ''acquisition'' signal_type then score + 20
                    else score) in
      (case get_lower startup ''sector'' of Inl e \<Rightarrow> Inl e | Inr sector \<Rightarrow>
      (let score = (if str_in ''ai'' sector \<or> str_in ''artificial intelligence'' sector
                    then score + 8
                    else if str_in ''cybersecurity'' sector then score + 10
                    else if str_in ''healthcare'' sector then score + 7
                    else score) in
       Inr (min 100 (max 0 score)))))))))"

subsection \<open>The scorer as the specification words it\<close>

text \<open>
  A case-insensitive substring check, and the three first-match chains of the specification,
  written from its text to be compared with the code above.
\<close>

definition contains_ci :: "string \<Rightarrow> string \<Rightarrow> bool" where
  "contains_ci s sub = str_in sub (lower s)"

definition stage_points :: "string \<Rightarrow> int" where
  "stage_points fs =
     (if contains_ci fs ''seed'' then 10
      else if contains_ci fs ''series a'' then 15
      else if contains_ci fs ''series b'' then 20 else 0)"

definition signal_points :: "string \<Rightarrow> int" where
  "signal_points st =
     (if contains_ci st ''funding'' then 15
      else if contains_ci st ''partnership'' then 12
      else if contains_ci st ''acquisition'' then 20 else 0)"

definition sector_points :: "string \<Rightarrow> int" where
  "sector_points se =
     (if contains_ci se ''ai'' \<or> contains_ci se ''artificial intelligence'' then 8
      else if contains_ci se ''cybersecurity'' then 10
      else if contains_ci se ''healthcare'' then 7 else 0)"

definition clamp_score :: "int \<Rightarrow> int" where
  "clamp_score x = (if x < 0 then 0 else if 100 < x then 100 else x)"

definition heuristic_score_spec :: "string \<Rightarrow> string \<Rightarrow> string \<Rightarrow> int" where
  "heuristic_score_spec fs st se =
     clamp_score (50 + stage_points fs + signal_points st + sector_points se)"

section \<open>Fallback catalog (\<^verbatim>\<open>get_fallback_data\<close>, utils.py)\<close>

definition get_fallback_data :: "pydict list" where
  "get_fallback_data =
    [
     [(''name'', PStr ''TechFlow Analytics''),
      (''description'', PStr ''AI-powered business intelligence platform for SMBs''),
      (''growth_reason'', PStr ''Recent Series A funding of $5M, growing customer base''),
      (''source_link'', PStr ''https://techcrunch.com/techflow-analytics''),
      (''sector'', PStr ''Business Intelligence''),
      (''funding_stage'', PStr ''Series A''),
      (''signal_type'', PStr ''Funding''),
      (''score'', PInt 85)],
     [(''name'', PStr ''CloudSync Pro''),
      (''description'', PStr ''Enterprise-grade file synchronization solution''),
      (''growth_reason'', PStr ''Major partnership with Microsoft, expanding team''),
      (''source_link'', PStr ''https://venturebeat.com/cloudsync-pro''),
      (''sector'', PStr ''Cloud Computing''),
      (''funding_stage'', PStr ''Seed''),
      (''signal_type'', PStr ''Partnership''),
      (''score'', PInt 78)],
     [(''name'', PStr ''DataVault Security''),
      (''description'', PStr ''Zero-trust cybersecurity platform for enterprises''),
      (''growth_reason'', PStr ''Increased demand post-cyber attacks, new product launch''),
      (''source_link'', PStr ''https://techcrunch.com/datavault-security''),
      (''sector'', PStr ''Cybersecurity''),
      (''funding_stage'', PStr ''Early Stage''),
      (''signal_type'', PStr ''Market Demand''),
      (''score'', PInt 92)],
     [(''name'', PStr ''GreenTech Solutions''),
      (''description'', PStr ''Sustainability tracking software for manufacturing''),
      (''growth_reason'', PStr ''Regulatory compliance requirements, ESG focus''),
      (''source_link'', PStr ''https://greenbiz.com/greentech-solutions''),
      (''sector'', PStr ''Sustainability''),
      (''funding_stage'', PStr ''Seed''),
      (''signal_type'', PStr ''Regulatory''),
      (''score'', PInt 80)],
     [(''name'', PStr ''HealthAI Connect''),
      (''description'', PStr ''AI-powered patient care coordination platform''),
      (''growth_reason'', PStr ''Healthcare digitization trends, pilot with major hospital''),
      (''source_link'', PStr ''https://healthcareitnews.com/healthai-connect''),
      (''sector'', PStr ''Healthcare''),
      (''funding_stage'', PStr ''Series A''),
      (''signal_type'', PStr ''Industry Trend''),
      (''score'', PInt 88)],
     [(''name'', PStr ''EduTech Pro''),
      (''description'', PStr ''Personalized learning platform for K-12 education''),
      (''growth_reason'', PStr ''Remote learning adoption, government contracts''),
      (''source_link'', PStr ''https://edtechmagazine.com/edutech-pro''),
      (''sector'', PStr ''Education''),
      (''funding_stage'', PStr ''Early Stage''),
      (''signal_type'', PStr ''Government''),
      (''score'', PInt 75)],
     [(''name'', PStr ''FinFlow Analytics''),
      (''description'', PStr ''Real-time financial data analysis for traders''),
      (''growth_reason'', PStr ''Market volatility, institutional interest''),
      (''source_link'', PStr ''https://fintechnews.com/finflow-analytics''),
      (''sector'', PStr ''Fintech''),
      (''funding_stage'', PStr ''Seed''),
      (''signal_type'', PStr ''Market Opportunity''),
      (''score'', PInt 82)],
     [(''name'', PStr ''LogiChain Pro''),
      (''description'', PStr ''Supply chain optimization using blockchain''),
      (''growth_reason'', PStr ''Global supply chain disruptions, Fortune 500 pilots''),
      (''source_link'', PStr ''https://supplychaindive.com/logichain-pro''),
      (''sector'', PStr ''Logistics''),
      (''funding_stage'', PStr ''Series A''),
      (''signal_type'', PStr ''Market Disruption''),
      (''score'', PInt 79)],
     [(''name'', PStr ''RetailAI Insights''),
      (''description'', PStr ''AI-powered retail analytics and customer insights''),
      (''growth_reason'', PStr ''E-commerce growth, major retail partnerships''),
      (''source_link'', PStr ''https://retailwire.com/retailai-insights''),
      (''sector'', PStr ''Retail''),
      (''funding_stage'', PStr ''Early Stage''),
      (''signal_type'', PStr ''Partnership''),
      (''score'', PInt 76)],
     [(''name'', PStr ''EnergyGrid Optimizer''),
      (''description'', PStr ''Smart grid management and energy optimization''),
      (''growth_reason'', PStr ''Renewable energy transition, government incentives''),
      (''source_link'', PStr ''https://energynews.com/energygrid-optimizer''),
      (''sector'', PStr ''Energy''),
      (''funding_stage'', PStr ''Seed''),
      (''signal_type'', PStr ''Policy''),
      (''score'', PInt 84)]
    ]"

section \<open>Validation loop of \<^verbatim>\<open>parse_saas_startups_response\<close> (utils.py, lines 39-54)\<close>

text \<open>
  Every entry that is a dictionary gives one dictionary of eight keys, each read with
  \<^verbatim>\<open>startup.get(key, default)\<close>; an entry that is not a dictionary is skipped.
\<close>

definition validated_startup :: "pydict \<Rightarrow> pydict" where
  "validated_startup startup =
     [(''name'', dict_get startup ''name'' (PStr ''Unknown Startup'')),
      (''description'', dict_get startup ''description'' (PStr ''No description available'')),
      (''growth_reason'', dict_get startup ''growth_reason'' (PStr ''Growth signals detected'')),
      (''source_link'', dict_get startup ''source_link'' (PStr ''https://example.com'')),
      (''sector'', dict_get startup ''sector'' (PStr ''Technology'')),
      (''funding_stage'', dict_get startup ''funding_stage'' (PStr ''Early Stage'')),
      (''signal_type'', dict_get startup ''signal_type'' (PStr ''News'')),
      (''score'', dict_get startup ''score'' (PInt 75))]"

fun validate_startups :: "pyval list \<Rightarrow> pydict list" where
  "validate_startups [] = []"
| "validate_startups (PDict startup # rest) = validated_startup startup # validate_startups rest"
| "validate_startups (other # rest) = validate_startups rest"

section \<open>Formatter (\<^verbatim>\<open>format_startup_data\<close>, utils.py)\<close>

text \<open>
  \<^verbatim>\<open>datetime.now().isoformat()\<close> reads a clock: \<open>clock t\<close> is the text returned by the read
  number \<open>t\<close>, and every function that reads the clock takes the number of the next read and
  returns the number after its last one, also when it raises.
\<close>

definition with_score :: "pydict \<Rightarrow> pyerr + pydict" where
  "with_score startup =
     (if \<not> dict_has startup ''score''
      then (case calculate_growth_score startup of
              Inl e \<Rightarrow> Inl e
            | Inr sc \<Rightarrow> Inr (dict_set startup ''score'' (PInt sc)))
      else Inr startup)"

fun format_loop :: "(nat \<Rightarrow> string) \<Rightarrow> pydict list \<Rightarrow> nat \<Rightarrow> (pyerr + pydict list) \<times> nat" where
  "format_loop clock [] t = (Inr [], t)"
| "format_loop clock (startup # rest) t =
     (case with_score startup of
        Inl e \<Rightarrow> (Inl e, t)
      | Inr scored \<Rightarrow>
          (case format_loop clock rest (Suc t) of
             (Inl e, t') \<Rightarrow> (Inl e, t')
           | (Inr formatted, t') \<Rightarrow>
               (Inr (dict_set scored ''timestamp'' (PStr (clock t)) # formatted), t')))"

definition format_startup_data ::
  "(nat \<Rightarrow> string) \<Rightarrow> pydict list \<Rightarrow> nat \<Rightarrow> (pyerr + pydict list) \<times> nat" where
  "format_startup_data clock startups t =
     (case format_loop clock startups t of
        (Inl e, t') \<Rightarrow> (Inl e, t')
      | (Inr formatted_startups, t') \<Rightarrow> (sort_by_score formatted_startups, t'))"

text \<open>
  The Validator/Formatter of the specification: the validation loop, then the formatter, as
  \<^verbatim>\<open>scan_for_startups\<close> chains them.
\<close>

definition validator_formatter ::
  "(nat \<Rightarrow> string) \<Rightarrow> pyval list \<Rightarrow> nat \<Rightarrow> (pyerr + pydict list) \<times> nat" where
  "validator_formatter clock raw t = format_startup_data clock (validate_startups raw) t"

text \<open>
  Names for what the formatter builds: \<open>stamped\<close> writes the time of read \<open>t + i\<close> into entry
  number \<open>i\<close>; \<open>keyed\<close> pairs every numbered entry with its sort key; \<open>formatted_fallback\<close>
  is the catalog in the order of its scores, stamped.
\<close>

definition stamped :: "(nat \<Rightarrow> string) \<Rightarrow> nat \<Rightarrow> nat \<times> pydict \<Rightarrow> pydict" where
  "stamped clock t ix = dict_set (snd ix) ''timestamp'' (PStr (clock (t + fst ix)))"

definition keyed :: "nat \<Rightarrow> pydict list \<Rightarrow> (pyval \<times> nat \<times> pydict) list" where
  "keyed n xs = map (\<lambda>ix. (dict_get (snd ix) ''score'' PNone, ix)) (enumerate n xs)"

definition formatted_fallback :: "(nat \<Rightarrow> string) \<Rightarrow> nat \<Rightarrow> pydict list" where
  "formatted_fallback clock t =
     map (\<lambda>i. dict_set (get_fallback_data ! i) ''timestamp'' (PStr (clock (t + i))))
       [2, 4, 0, 9, 6, 3, 7, 1, 8, 5]"

section \<open>Loose text extraction (\<^verbatim>\<open>parse_structured_text\<close>, utils.py)\<close>

text \<open>
  The character classes of \<^verbatim>\<open>re\<close> and \<^verbatim>\<open>str.strip\<close> on code points below 256: white space
  is U+0009-U+000D, U+001C-U+0020, U+0085 and U+00A0; the decimal digits are 0-9.
\<close>

definition is_space :: "char \<Rightarrow> bool" where
  "is_space c = (let n = (of_char c :: nat) in
     (9 \<le> n \<and> n \<le> 13) \<or> (28 \<le> n \<and> n \<le> 32) \<or> n = 133 \<or> n = 160)"

definition is_digit :: "char \<Rightarrow> bool" where
  "is_digit c = (let n = (of_char c :: nat) in 48 \<le> n \<and> n \<le> 57)"

definition strip :: "string \<Rightarrow> string" where
  "strip s = rev (dropWhile is_space (rev (dropWhile is_space s)))"

text \<open>
  One match of \<^verbatim>\<open>\n\d+\.|\n\<bullet>|\n-\<close> at the start of a text, giving the text after the match.
  The digits are taken greedily and no shorter run of digits is followed by a period. The
  second alternative, a newline and the bullet U+2022, matches no text of code points below 256.
\<close>

definition match_separator :: "string \<Rightarrow> string option" where
  "match_separator s =
     (case s of
        [] \<Rightarrow> None
      | c # r \<Rightarrow>
          if c \<noteq> CHR 0x0A then None
          else if takeWhile is_digit r \<noteq> [] \<and> startswith (dropWhile is_digit r) ''.''
          then Some (tl (dropWhile is_digit r))
          else if startswith r ''-'' then Some (tl r)
          else None)"

text \<open>
  \<^verbatim>\<open>re.split\<close>: the pieces between the matches, from left to right; \<open>piece\<close> is the piece
  read so far.
\<close>

function re_split :: "string \<Rightarrow> string \<Rightarrow> string list" where
  "re_split piece [] = [piece]"
| "re_split piece (c # cs) =
     (case match_separator (c # cs) of
        Some rest \<Rightarrow> piece # re_split [] rest
      | None \<Rightarrow> re_split (piece @ [c]) cs)"
  by pat_completeness auto
termination
proof (relation "measure (\<lambda>(piece, s). length s)")
  show "wf (measure (\<lambda>(piece, s). length s))" by simp
next
  fix piece :: string and c cs rest
  assume "match_separator (c # cs) = Some rest"
  then have "length rest \<le> length cs"
    using length_dropWhile_le [of is_digit cs]
    by (auto simp: match_separator_def split: if_splits)
  then show "(([], rest), (piece, c # cs)) \<in> measure (\<lambda>(piece, s). length s)" by simp
next
  fix piece :: string and c cs
  show "((piece @ [c], cs), (piece, c # cs)) \<in> measure (\<lambda>(piece, s). length s)" by simp
qed

text \<open>
  A label is matched without regard to case. \<^verbatim>\<open>[:\s]+([^\n]+)\<close> after it: the run of colons
  and white space is taken greedily. When a character follows the run, it is not a newline and
  the group is the rest of its line. When the run ends the text, the run gives characters back
  from its end until the character given back is not a newline, keeping at least one; the
  group is that character.
\<close>

fun startswith_ci :: "string \<Rightarrow> string \<Rightarrow> bool" where
  "startswith_ci s [] = True"
| "startswith_ci [] (p # ps) = False"
| "startswith_ci (c # cs) (p # ps) = (lower_char c = lower_char p \<and> startswith_ci cs ps)"

definition is_sep :: "char \<Rightarrow> bool" where
  "is_sep c = (c = CHR '':'' \<or> is_space c)"

definition match_value :: "string \<Rightarrow> string option" where
  "match_value s =
     (let run = takeWhile is_sep s; rest = dropWhile is_sep s in
      if run = [] then None
      else if rest \<noteq> [] then Some (takeWhile (\<lambda>c. c \<noteq> CHR 0x0A) rest)
      else (case dropWhile (\<lambda>c. c = CHR 0x0A) (rev (tl run)) of
              [] \<Rightarrow> None
            | c # before \<Rightarrow> Some [c]))"

text \<open>\<^verbatim>\<open>re.search(label + r'[:\s]+([^\n]+)', entry, re.IGNORECASE)\<close>: group 1 of the
  leftmost match.\<close>

fun search_label :: "string \<Rightarrow> string \<Rightarrow> string option" where
  "search_label label [] = None"
| "search_label label (c # cs) =
     (if startswith_ci (c # cs) label
      then (case match_value (drop (length label) (c # cs)) of
              Some g \<Rightarrow> Some g
            | None \<Rightarrow> search_label label cs)
      else search_label label cs)"

definition group_or :: "string option \<Rightarrow> string \<Rightarrow> pyval" where
  "group_or m dflt = (case m of Some g \<Rightarrow> PStr (strip g) | None \<Rightarrow> PStr dflt)"

definition entry_startup :: "string \<Rightarrow> pydict option" where
  "entry_startup entry =
     (let name_match = search_label ''Name'' entry;
          desc_match = search_label ''Description'' entry;
          reason_match = search_label ''Reason'' entry;
          source_match = search_label ''Source'' entry
      in case name_match of
           None \<Rightarrow> None
         | Some name \<Rightarrow>
             Some [(''name'', PStr (strip name)),
                   (''description'', group_or desc_match ''No description''),
                   (''growth_reason'', group_or reason_match ''Growth potential detected''),
                   (''source_link'', group_or source_match ''https://example.com''),
                   (''sector'', PStr ''Technology''),
                   (''funding_stage'', PStr ''Early Stage''),
                   (''signal_type'', PStr ''News''),
                   (''score'', PInt 75)])"

fun parse_entries :: "string list \<Rightarrow> pydict list" where
  "parse_entries [] = []"
| "parse_entries (entry # entries) =
     (if strip entry = [] then parse_entries entries
      else (case entry_startup entry of
              Some startup \<Rightarrow> startup # parse_entries entries
            | None \<Rightarrow> parse_entries entries))"

definition parse_structured_text :: "string \<Rightarrow> pydict list" where
  "parse_structured_text text = parse_entries (re_split [] text)"

section \<open>Response parser (\<^verbatim>\<open>parse_saas_startups_response\<close>, utils.py)\<close>

text \<open>
  \<^verbatim>\<open>re.search(r'\[.*\]', text, re.DOTALL)\<close>: the match starts at the first opening bracket and
  ends at the last closing bracket of the text; there is none when no closing bracket follows
  the first opening one.
\<close>

definition re_search_brackets :: "string \<Rightarrow> string option" where
  "re_search_brackets text =
     (case dropWhile (\<lambda>c. c \<noteq> CHR ''['') text of
        [] \<Rightarrow> None
      | c # r \<Rightarrow>
          if CHR '']'' \<in> set r
          then Some (c # rev (dropWhile (\<lambda>c. c \<noteq> CHR '']'') (rev r)))
          else None)"

text \<open>\<^verbatim>\<open>for startup in startups\<close>: a list gives its elements, a dictionary its keys, a string
  its characters; the other values are not iterable.\<close>

fun py_iter :: "pyval \<Rightarrow> pyerr + pyval list" where
  "py_iter (PList xs) = Inr xs"
| "py_iter (PDict d) = Inr (map (\<lambda>kv. PStr (fst kv)) d)"
| "py_iter (PStr s) = Inr (map (\<lambda>c. PStr [c]) s)"
| "py_iter other = Inl TypeError"

text \<open>
  \<^verbatim>\<open>json.loads\<close> is library code: the parser takes it as the parameter \<open>loads\<close>, which
  returns the decoded value or raises. The \<^verbatim>\<open>except\<close> clause catches
  \<^verbatim>\<open>JSONDecodeError\<close> and \<^verbatim>\<open>AttributeError\<close>, and then the startups are the fallback catalog.
\<close>

definition parse_saas_startups_response ::
  "(string \<Rightarrow> pyerr + pyval) \<Rightarrow> string \<Rightarrow> pyerr + pydict list" where
  "parse_saas_startups_response loads response_text =
     (case (case re_search_brackets response_text of
              Some json_str \<Rightarrow> loads json_str
            | None \<Rightarrow> Inr (PList (map PDict (parse_structured_text response_text)))) of
        Inl e \<Rightarrow>
          if e = JSONDecodeError \<or> e = AttributeError
          then Inr (validate_startups (map PDict get_fallback_data))
          else Inl e
      | Inr startups \<Rightarrow>
          (case py_iter startups of
             Inl e \<Rightarrow> Inl e
           | Inr entries \<Rightarrow> Inr (validate_startups entries)))"

section \<open>Orchestrator (\<^verbatim>\<open>SaaSSignalMiner.scan_for_startups\<close>, main.py)\<close>

text \<open>
  \<open>client\<close> is \<open>None\<close> when no client was configured; otherwise it holds what the one call
  \<^verbatim>\<open>self.client.ask(query)\<close> does: it returns a value or raises. \<^verbatim>\<open>len(response)\<close> and
  \<^verbatim>\<open>re.search\<close> raise \<^verbatim>\<open>TypeError\<close> on a response that is not a string. Every exception of
  the \<^verbatim>\<open>try\<close> block is caught and the formatted fallback catalog is returned.
\<close>

definition scan_try ::
  "pyerr + pyval \<Rightarrow> (string \<Rightarrow> pyerr + pyval) \<Rightarrow> (nat \<Rightarrow> string) \<Rightarrow> nat
     \<Rightarrow> (pyerr + pydict list) \<times> nat" where
  "scan_try asked loads clock t =
     (case asked of
        Inl e \<Rightarrow> (Inl e, t)
      | Inr response \<Rightarrow>
          (case response of
             PStr response_text \<Rightarrow>
               (case parse_saas_startups_response loads response_text of
                  Inl e \<Rightarrow> (Inl e, t)
                | Inr startups \<Rightarrow> format_startup_data clock startups t)
           | other \<Rightarrow> (Inl TypeError, t)))"

definition scan_for_startups ::
  "(pyerr + pyval) option \<Rightarrow> (string \<Rightarrow> pyerr + pyval) \<Rightarrow> (nat \<Rightarrow> string) \<Rightarrow> nat
     \<Rightarrow> (pyerr + pydict list) \<times> nat" where
  "scan_for_startups client loads clock t =
     (case client of
        None \<Rightarrow> format_startup_data clock get_fallback_data t
      | Some asked \<Rightarrow>
          (case scan_try asked loads clock t of
             (Inr formatted_startups, t') \<Rightarrow> (Inr formatted_startups, t')
           | (Inl e, t') \<Rightarrow> format_startup_data clock get_fallback_data t'))"

section \<open>Filter (\<^verbatim>\<open>SaaSSignalMiner.filter_startups\<close>, main.py)\<close>

text \<open>
  A criterion is applied when \<^verbatim>\<open>crit and crit != "All"\<close> holds: it is given, not empty and
  not the text All.
\<close>

definition criterion_given :: "string option \<Rightarrow> bool" where
  "criterion_given crit = (case crit of None \<Rightarrow> False | Some c \<Rightarrow> c \<noteq> [] \<and> c \<noteq> ''All'')"

fun filter_field :: "string \<Rightarrow> string \<Rightarrow> pydict list \<Rightarrow> pyerr + pydict list" where
  "filter_field k crit [] = Inr []"
| "filter_field k crit (s # rest) =
     (case get_lower s k of
        Inl e \<Rightarrow> Inl e
      | Inr v \<Rightarrow>
          (case filter_field k crit rest of
             Inl e \<Rightarrow> Inl e
           | Inr kept \<Rightarrow> Inr (if v = lower crit then s # kept else kept)))"

fun filter_min_score :: "int \<Rightarrow> pydict list \<Rightarrow> pyerr + pydict list" where
  "filter_min_score min_score [] = Inr []"
| "filter_min_score min_score (s # rest) =
     (case py_ge (dict_get s ''score'' (PInt 0)) (PInt min_score) of
        Inl e \<Rightarrow> Inl e
      | Inr ok \<Rightarrow>
          (case filter_min_score min_score rest of
             Inl e \<Rightarrow> Inl e
           | Inr kept \<Rightarrow> Inr (if ok then s # kept else kept)))"

definition filter_optional :: "string \<Rightarrow> string option \<Rightarrow> pydict list \<Rightarrow> pyerr + pydict list" where
  "filter_optional k crit filtered_startups =
     (if criterion_given crit then filter_field k (the crit) filtered_startups
      else Inr filtered_startups)"

definition filter_startups ::
  "pydict list \<Rightarrow> string option \<Rightarrow> string option \<Rightarrow> string option \<Rightarrow> int \<Rightarrow> pyerr + pydict list" where
  "filter_startups startups sector funding_stage signal_type min_score =
     (case filter_optional ''sector'' sector startups of
        Inl e \<Rightarrow> Inl e
      | Inr by_sector \<Rightarrow>
     (case filter_optional ''funding_stage'' funding_stage by_sector of
        Inl e \<Rightarrow> Inl e
      | Inr by_stage \<Rightarrow>
     (case filter_optional ''signal_type'' signal_type by_stage of
        Inl e \<Rightarrow> Inl e
      | Inr by_signal \<Rightarrow> filter_min_score min_score by_signal)))"

section \<open>The filter on objects\<close>

text \<open>
  The same function with the objects it works on, to state what it writes. A list object
  holds references to its elements, which are dictionary objects; \<open>next_list\<close> is the
  reference that the next new list object gets, and the list objects that exist have smaller
  references. \<^verbatim>\<open>startups.copy()\<close> and every list comprehension build a new list object;
  the condition of a comprehension reads the dictionary objects. The name
  \<^verbatim>\<open>filtered_startups\<close> is bound anew at every step.
\<close>

record heap =
  list_objs :: "nat \<Rightarrow> nat list"
  dict_objs :: "nat \<Rightarrow> pydict"
  next_list :: nat

definition new_list :: "heap \<Rightarrow> nat list \<Rightarrow> nat \<times> heap" where
  "new_list h refs =
     (next_list h,
      h\<lparr>list_objs := (list_objs h)(next_list h := refs), next_list := Suc (next_list h)\<rparr>)"

text \<open>The conditions of the comprehensions, on one dictionary.\<close>

definition field_is :: "string \<Rightarrow> string \<Rightarrow> pydict \<Rightarrow> pyerr + bool" where
  "field_is k crit s = (case get_lower s k of Inl e \<Rightarrow> Inl e | Inr v \<Rightarrow> Inr (v = lower crit))"

definition score_ge :: "int \<Rightarrow> pydict \<Rightarrow> pyerr + bool" where
  "score_ge min_score s = py_ge (dict_get s ''score'' (PInt 0)) (PInt min_score)"

fun keep_refs :: "(pydict \<Rightarrow> pyerr + bool) \<Rightarrow> heap \<Rightarrow> nat list \<Rightarrow> pyerr + nat list" where
  "keep_refs cond h [] = Inr []"
| "keep_refs cond h (s # rest) =
     (case cond (dict_objs h s) of
        Inl e \<Rightarrow> Inl e
      | Inr ok \<Rightarrow>
          (case keep_refs cond h rest of
             Inl e \<Rightarrow> Inl e
           | Inr kept \<Rightarrow> Inr (if ok then s # kept else kept)))"

definition comprehension :: "(pydict \<Rightarrow> pyerr + bool) \<Rightarrow> heap \<Rightarrow> nat \<Rightarrow> (pyerr + nat) \<times> heap" where
  "comprehension cond h filtered_startups =
     (case keep_refs cond h (list_objs h filtered_startups) of
        Inl e \<Rightarrow> (Inl e, h)
      | Inr kept \<Rightarrow> (case new_list h kept of (r, h') \<Rightarrow> (Inr r, h')))"

definition comprehension_optional ::
  "string \<Rightarrow> string option \<Rightarrow> heap \<Rightarrow> nat \<Rightarrow> (pyerr + nat) \<times> heap" where
  "comprehension_optional k crit h filtered_startups =
     (if criterion_given crit then comprehension (field_is k (the crit)) h filtered_startups
      else (Inr filtered_startups, h))"

definition filter_startups_heap ::
  "heap \<Rightarrow> nat \<Rightarrow> string option \<Rightarrow> string option \<Rightarrow> string option \<Rightarrow> int
     \<Rightarrow> (pyerr + nat) \<times> heap" where
  "filter_startups_heap h startups sector funding_stage signal_type min_score =
     (case new_list h (list_objs h startups) of
        (copied, h0) \<Rightarrow>
     (case comprehension_optional ''sector'' sector h0 copied of
        (Inl e, h1) \<Rightarrow> (Inl e, h1)
      | (Inr by_sector, h1) \<Rightarrow>
     (case comprehension_optional ''funding_stage'' funding_stage h1 by_sector of
        (Inl e, h2) \<Rightarrow> (Inl e, h2)
      | (Inr by_stage, h2) \<Rightarrow>
     (case comprehension_optional ''signal_type'' signal_type h2 by_stage of
        (Inl e, h3) \<Rightarrow> (Inl e, h3)
      | (Inr by_signal, h3) \<Rightarrow> comprehension (score_ge min_score) h3 by_signal))))"

text \<open>The records a list object holds, and the objects a call leaves as they were.\<close>

definition contents :: "heap \<Rightarrow> nat \<Rightarrow> pydict list" where
  "contents h a = map (dict_objs h) (list_objs h a)"

definition frame :: "heap \<Rightarrow> heap \<Rightarrow> bool" where
  "frame h h' =
     (dict_objs h' = dict_objs h \<and> next_list h \<le> next_list h'
      \<and> (\<forall>b<next_list h. list_objs h' b = list_objs h b))"

section \<open>Notions used to state the properties\<close>

text \<open>
  \<open>ordered_by rank K\<close>: on the values of \<open>K\<close> the comparison \<^verbatim>\<open><\<close> never raises and is the
  order of their ranks, as it is for integers and booleans ranked by their value and for
  strings ranked by their text.
  \<open>score_of\<close> reads the score of a record; \<open>formatted_input\<close> is the list the formatter holds
  before it sorts: the entries in input order, stamped.
\<close>

definition ordered_by :: "(pyval \<Rightarrow> 'k::linorder) \<Rightarrow> pyval set \<Rightarrow> bool" where
  "ordered_by rank K = (\<forall>a\<in>K. \<forall>b\<in>K. py_lt a b = Inr (rank a < rank b))"


definition formatted_input :: "(nat \<Rightarrow> string) \<Rightarrow> nat \<Rightarrow> pydict list \<Rightarrow> pydict list" where
  "formatted_input clock t xs = map (stamped clock t) (enumerate 0 xs)"

text \<open>
  The table of default field constants and the nine field names of a record, as the
  specification lists them.
\<close>

definition text_defaults :: "(string \<times> string) list" where
  "text_defaults =
     [(''name'', ''Unknown Startup''),
      (''description'', ''No description available''),
      (''growth_reason'', ''Growth signals detected''),
      (''source_link'', ''https://example.com''),
      (''sector'', ''Technology''),
      (''funding_stage'', ''Early Stage''),
      (''signal_type'', ''News'')]"

definition record_fields :: "string list" where
  "record_fields = [''name'', ''description'', ''growth_reason'', ''source_link'', ''sector'',
     ''funding_stage'', ''signal_type'', ''score'', ''timestamp'']"

text \<open>
  The entries of a raw sequence that are dictionaries, in their order, and the record the
  specification expects for one of them: the seven text fields with the value of the input, or
  the default constant where the input has no such key, then the score of the input, or 75,
  then the timestamp. \<open>expected_records\<close> are the expected records of a raw sequence in
  input order, entry number \<open>i\<close> with the time of read \<open>t + i\<close>; \<open>raw_scores\<close> are the
  scores they carry.
\<close>

definition dict_entries :: "pyval list \<Rightarrow> pydict list" where
  "dict_entries raw = concat (map (\<lambda>v. case v of PDict d \<Rightarrow> [d] | _ \<Rightarrow> []) raw)"

definition expected_record :: "pydict \<Rightarrow> pyval \<Rightarrow> pydict" where
  "expected_record d ts =
     map (\<lambda>kd. (fst kd, dict_get d (fst kd) (PStr (snd kd)))) text_defaults
     @ [(''score'', dict_get d ''score'' (PInt 75)), (''timestamp'', ts)]"

definition expected_records :: "(nat \<Rightarrow> string) \<Rightarrow> nat \<Rightarrow> pyval list \<Rightarrow> pydict list" where
  "expected_records clock t raw =
     map (\<lambda>ix. expected_record (snd ix) (PStr (clock (t + fst ix))))
       (enumerate 0 (dict_entries raw))"


text \<open>
  What the formatter makes of one mapping it receives: the mapping itself when it has a score,
  and otherwise the mapping with the score of the scorer; \<open>formatted_records\<close> are these
  mappings in input order, stamped.
\<close>

definition scored :: "pydict \<Rightarrow> pydict" where
  "scored x =
     (if dict_has x ''score'' then x
      else dict_set x ''score''
             (PInt (case calculate_growth_score x of Inr n \<Rightarrow> n | Inl e \<Rightarrow> 0)))"

definition formatted_records :: "(nat \<Rightarrow> string) \<Rightarrow> nat \<Rightarrow> pydict list \<Rightarrow> pydict list" where
  "formatted_records clock t xs =
     map (\<lambda>ix. dict_set (scored (snd ix)) ''timestamp'' (PStr (clock (t + fst ix))))
       (enumerate 0 xs)"

text \<open>
  The filter as the specification words it: a criterion that is given matches a record when
  the field equals it without regard to case, a record is kept when it matches the three
  criteria and its score, 0 when it has none, is \<^verbatim>\<open>>=\<close> the minimum. A record is well typed
  for the filter when the three fields, where present, are strings and the score, where
  present, is a number.
\<close>

definition text_of :: "pyval \<Rightarrow> string" where
  "text_of v = (case v of PStr s \<Rightarrow> s | _ \<Rightarrow> [])"

definition is_text :: "pyval \<Rightarrow> bool" where
  "is_text v = (case v of PStr s \<Rightarrow> True | _ \<Rightarrow> False)"

definition matches :: "string option \<Rightarrow> pydict \<Rightarrow> string \<Rightarrow> bool" where
  "matches crit d k =
     (if criterion_given crit
      then lower (text_of (dict_get d k (PStr []))) = lower (the crit)
      else True)"

definition score_at_least :: "int \<Rightarrow> pydict \<Rightarrow> bool" where
  "score_at_least min_score d =
     (py_ge (dict_get d ''score'' (PInt 0)) (PInt min_score) = Inr True)"

definition keeps :: "string option \<Rightarrow> string option \<Rightarrow> string option \<Rightarrow> int \<Rightarrow> pydict \<Rightarrow> bool" where
  "keeps sector funding_stage signal_type min_score d =
     (matches sector d ''sector'' \<and> matches funding_stage d ''funding_stage''
      \<and> matches signal_type d ''signal_type'' \<and> score_at_least min_score d)"

definition well_typed :: "pydict \<Rightarrow> bool" where
  "well_typed d =
     (is_text (dict_get d ''sector'' (PStr [])) \<and> is_text (dict_get d ''funding_stage'' (PStr []))
      \<and> is_text (dict_get d ''signal_type'' (PStr []))
      \<and> py_num (dict_get d ''score'' (PInt 0)) \<noteq> None)"

section \<open>Inputs of the examples\<close>

text \<open>
  The text of the loose-format example of the specification, and a decoder for the examples:
  it decodes the empty array and raises \<^verbatim>\<open>JSONDecodeError\<close> on every other text, as
  \<^verbatim>\<open>json.loads\<close> does on the two texts it is applied to below, \<^verbatim>\<open>[]\<close> and \<^verbatim>\<open>[draft]\<close>.
\<close>

definition acme_text :: string where
  "acme_text = ''1. Name: Acme Corp\<newline>Description: Widgets\<newline>''"

definition loads_sample :: "string \<Rightarrow> pyerr + pyval" where
  "loads_sample json_str = (if json_str = ''[]'' then Inr (PList []) else Inl JSONDecodeError)"

text \<open>A clock that always shows the same time, and a raw sequence with a non-dictionary entry,
  missing fields and two equal scores.\<close>

definition fixed_clock :: "nat \<Rightarrow> string" where
  "fixed_clock n = ''2024-01-01T00:00:00''"

definition sample_raw :: "pyval list" where
  "sample_raw =
     [PDict [(''name'', PStr ''Acme''), (''score'', PInt 80)],
      PInt 3,
      PDict [(''score'', PInt 90)],
      PDict [(''sector'', PStr ''Fintech''), (''score'', PInt 80)],
      PDict []]"

text \<open>Three records for the filter; the second has no score.\<close>

definition scored_records :: "pydict list" where
  "scored_records =
     [[(''name'', PStr ''Acme''), (''sector'', PStr ''Fintech''), (''score'', PInt 90)],
      [(''name'', PStr ''Bolt''), (''sector'', PStr ''FINTECH'')],
      [(''name'', PStr ''Core''), (''sector'', PStr ''Retail''), (''score'', PInt 70)]]"

text \<open>Raw sequences whose scores are out of range, not a text, not ordered, or null, and a
  store that holds the three records in one list object.\<close>

definition ranged_raw :: "pyval list" where
  "ranged_raw = [PDict [(''score'', PInt 20)], PDict [(''score'', PInt 150)]]"

definition unscored :: "pydict list" where
  "unscored = [[(''sector'', PStr ''Healthcare'')], [(''score'', PInt 150)]]"


definition records_heap :: heap where
  "records_heap =
     \<lparr>list_objs = (\<lambda>a. [])(0 := [0, 1, 2]),
      dict_objs = (\<lambda>s. scored_records ! s),
      next_list = 1\<rparr>"

section \<open>Properties of the scorer\<close>

lemma lower_char_idem: "lower_char (lower_char c) = lower_char c"
proof -
  define n where "n = (of_char c :: nat)"
  show ?thesis
  proof (cases "(65 \<le> n \<and> n \<le> 90) \<or> (192 \<le> n \<and> n \<le> 222 \<and> n \<noteq> 215)")
    case True
    then have lc: "lower_char c = char_of (n + 32)"
      by (simp add: lower_char_def n_def)
    from True have "n + 32 < 256" by arith
    then have oc: "(of_char (char_of (n + 32) :: char) :: nat) = n + 32"
      by (simp add: of_char_of)
    from True have "\<not> ((65 \<le> n + 32 \<and> n + 32 \<le> 90) \<or>
        (192 \<le> n + 32 \<and> n + 32 \<le> 222 \<and> n + 32 \<noteq> 215))"
      by arith
    then have "lower_char (char_of (n + 32)) = char_of (n + 32)"
      unfolding lower_char_def Let_def oc by (rule if_not_P)
    with lc show ?thesis by simp
  next
    case False
    then have "lower_char c = c"
      unfolding lower_char_def Let_def n_def by (rule if_not_P)
    then show ?thesis by simp
  qed
qed

lemma lower_idem: "lower (lower s) = lower s"
  by (simp add: lower_def lower_char_idem)

lemma contains_ci_lower: "contains_ci (lower s) sub = contains_ci s sub"
  by (simp add: contains_ci_def lower_idem)

lemma get_lower_str: "dict_get d k (PStr []) = PStr s \<Longrightarrow> get_lower d k = Inr (lower s)"
  by (simp add: get_lower_def)

lemma stage_chain:
  "(if str_in ''seed'' (lower fs) then s + 10
    else if str_in ''series a'' (lower fs) then s + 15
    else if str_in ''series b'' (lower fs) then s + 20 else s) = s + stage_points fs"
  by (simp add: stage_points_def contains_ci_def)

lemma signal_chain:
  "(if str_in ''funding'' (lower st) then s + 15
    else if str_in ''partnership'' (lower st) then s + 12
    else if str_in ''acquisition'' (lower st) then s + 20 else s) = s + signal_points st"
  by (simp add: signal_points_def contains_ci_def)

lemma sector_chain:
  "(if str_in ''ai'' (lower se) \<or> str_in ''artificial intelligence'' (lower se) then s + 8
    else if str_in ''cybersecurity'' (lower se) then s + 10
    else if str_in ''healthcare'' (lower se) then s + 7 else s) = s + sector_points se"
  by (simp add: sector_points_def contains_ci_def)

lemma clamp_min_max: "min 100 (max 0 x) = clamp_score x"
  by (simp add: clamp_score_def min_def max_def)

lemma calculate_growth_score_strs:
  assumes "dict_get d ''funding_stage'' (PStr []) = PStr fs"
    and "dict_get d ''signal_type'' (PStr []) = PStr st"
    and "dict_get d ''sector'' (PStr []) = PStr se"
  shows "calculate_growth_score d = Inr (heuristic_score_spec fs st se)"
  unfolding calculate_growth_score_def Let_def
    get_lower_str [OF assms(1)] get_lower_str [OF assms(2)] get_lower_str [OF assms(3)]
    sum.case stage_chain signal_chain sector_chain clamp_min_max heuristic_score_spec_def
  by (rule refl)

lemma heuristic_score_spec_range:
  "0 \<le> heuristic_score_spec fs st se \<and> heuristic_score_spec fs st se \<le> 100"
  by (simp add: heuristic_score_spec_def clamp_score_def)

text \<open>
  C4. On a mapping whose three fields are strings the scorer returns the value the
  specification describes: base 50, one addend from each of the three first-match chains of
  case-insensitive substring checks, clamped to 0..100. The result depends on the three
  strings only and not on their letter case, it lies in 0..100, and for Series A, Funding,
  Cybersecurity it is 90.
\<close>

theorem calculate_growth_score_spec:
  assumes "dict_get d ''funding_stage'' (PStr []) = PStr fs"
    and "dict_get d ''signal_type'' (PStr []) = PStr st"
    and "dict_get d ''sector'' (PStr []) = PStr se"
  shows "calculate_growth_score d = Inr (heuristic_score_spec fs st se)
       \<and> 0 \<le> heuristic_score_spec fs st se \<and> heuristic_score_spec fs st se \<le> 100
       \<and> heuristic_score_spec (lower fs) (lower st) (lower se) = heuristic_score_spec fs st se
       \<and> heuristic_score_spec ''Series A'' ''Funding'' ''Cybersecurity'' = 90"
proof -
  have a: "calculate_growth_score d = Inr (heuristic_score_spec fs st se)"
    using assms by (rule calculate_growth_score_strs)
  have c: "heuristic_score_spec (lower fs) (lower st) (lower se) = heuristic_score_spec fs st se"
    by (simp add: heuristic_score_spec_def stage_points_def signal_points_def sector_points_def
        contains_ci_lower)
  have d: "heuristic_score_spec ''Series A'' ''Funding'' ''Cybersecurity'' = 90"
    by code_simp
  from a heuristic_score_spec_range [of fs st se] c d show ?thesis by simp
qed

theorem calculate_growth_score_spec_witness:
  "calculate_growth_score
     [(''funding_stage'', PStr ''Series A''), (''signal_type'', PStr ''Funding''),
      (''sector'', PStr ''Cybersecurity'')] = Inr 90"
proof -
  let ?d = "[(''funding_stage'', PStr ''Series A''), (''signal_type'', PStr ''Funding''),
      (''sector'', PStr ''Cybersecurity'')]"
  have h1: "dict_get ?d ''funding_stage'' (PStr []) = PStr ''Series A''"
    by (simp add: dict_get_def)
  have h2: "dict_get ?d ''signal_type'' (PStr []) = PStr ''Funding''"
    by (simp add: dict_get_def)
  have h3: "dict_get ?d ''sector'' (PStr []) = PStr ''Cybersecurity''"
    by (simp add: dict_get_def)
  from calculate_growth_score_spec [OF h1 h2 h3] show ?thesis by simp
qed

section \<open>Properties of the sort\<close>




lemma insort_desc_apsnd:
  "insort_desc (apsnd f x) (map (apsnd f) ys) =
     (case insort_desc x ys of Inl e \<Rightarrow> Inl e | Inr zs \<Rightarrow> Inr (map (apsnd f) zs))"
proof (induction ys)
  case Nil
  show ?case by simp
next
  case (Cons y ys)
  show ?case
  proof (cases "py_lt (fst x) (fst y)")
    case (Inl e)
    then show ?thesis by simp
  next
    case (Inr lt)
    with Cons show ?thesis by (cases "insort_desc x ys") simp_all
  qed
qed

lemma sort_desc_apsnd:
  "sort_desc (map (apsnd f) xs) =
     (case sort_desc xs of Inl e \<Rightarrow> Inl e | Inr zs \<Rightarrow> Inr (map (apsnd f) zs))"
proof (induction xs)
  case Nil
  show ?case by simp
next
  case (Cons x xs)
  then show ?case by (cases "sort_desc xs") (simp_all add: insort_desc_apsnd)
qed

section \<open>Properties of the formatter\<close>

lemma with_score_has: "dict_has x ''score'' \<Longrightarrow> with_score x = Inr x"
  by (simp add: with_score_def)

lemma stamped_shift:
  "map (stamped clock t) (enumerate (Suc n) xs) = map (stamped clock (Suc t)) (enumerate n xs)"
  by (induction xs arbitrary: n) (simp_all add: stamped_def)

lemma format_loop_scored:
  "\<forall>x\<in>set xs. dict_has x ''score'' \<Longrightarrow>
   format_loop clock xs t = (Inr (map (stamped clock t) (enumerate 0 xs)), t + length xs)"
proof (induction xs arbitrary: t)
  case Nil
  show ?case by simp
next
  case (Cons x xs)
  have e: "map (stamped clock t) (enumerate (Suc 0) xs) = map (stamped clock (Suc t)) (enumerate 0 xs)"
    by (rule stamped_shift)
  from Cons have ih: "format_loop clock xs (Suc t)
      = (Inr (map (stamped clock (Suc t)) (enumerate 0 xs)), Suc t + length xs)" by simp
  from Cons.prems have "with_score x = Inr x" by (simp add: with_score_has)
  moreover have "stamped clock t (0, x) = dict_set x ''timestamp'' (PStr (clock t))"
    by (simp add: stamped_def)
  ultimately show ?case using ih e by simp
qed

lemma map_of_stamped_score:
  "map_of (stamped clock t ix) ''score'' = map_of (snd ix) ''score''"
  by (simp add: stamped_def dict_set_def update_conv)

lemma score_keys_stamped:
  "\<forall>ix\<in>set ixs. dict_has (snd ix) ''score'' \<Longrightarrow>
   score_keys (map (stamped clock t) ixs) =
     Inr (map (apsnd (stamped clock t)) (map (\<lambda>ix. (dict_get (snd ix) ''score'' PNone, ix)) ixs))"
proof (induction ixs)
  case Nil
  show ?case by simp
next
  case (Cons ix ixs)
  from Cons.prems obtain k where k: "map_of (snd ix) ''score'' = Some k"
    by (auto simp: dict_has_def)
  from Cons have ih: "score_keys (map (stamped clock t) ixs) =
     Inr (map (apsnd (stamped clock t)) (map (\<lambda>ix. (dict_get (snd ix) ''score'' PNone, ix)) ixs))"
    by simp
  from k ih show ?case by (simp add: map_of_stamped_score dict_get_def)
qed

lemma format_startup_data_scored:
  assumes "\<forall>x\<in>set xs. dict_has x ''score''"
  shows "format_startup_data clock xs t =
    ((case sort_desc (keyed 0 xs) of
        Inl e \<Rightarrow> Inl e
      | Inr ss \<Rightarrow> Inr (map (\<lambda>p. stamped clock t (snd p)) ss)), t + length xs)"
proof -
  have h: "\<forall>ix\<in>set (enumerate 0 xs). dict_has (snd ix) ''score''"
    using assms by (auto simp: in_set_enumerate_eq)
  have "sort_by_score (map (stamped clock t) (enumerate 0 xs)) =
     (case sort_desc (keyed 0 xs) of
        Inl e \<Rightarrow> Inl e
      | Inr ss \<Rightarrow> Inr (map (\<lambda>p. stamped clock t (snd p)) ss))"
    unfolding sort_by_score_def score_keys_stamped [OF h] keyed_def [symmetric]
      sum.case sort_desc_apsnd
    by (cases "sort_desc (keyed 0 xs)") (simp_all add: comp_def)
  then show ?thesis
    by (simp add: format_startup_data_def format_loop_scored [OF assms])
qed

section \<open>The formatted fallback catalog\<close>

lemma fallback_has_score: "\<forall>x\<in>set get_fallback_data. dict_has x ''score''"
  by code_simp

lemma fallback_length: "length get_fallback_data = 10"
  by code_simp

lemma fallback_sort_desc:
  "sort_desc (keyed 0 get_fallback_data) =
     Inr (map (\<lambda>i. (dict_get (get_fallback_data ! i) ''score'' PNone, (i, get_fallback_data ! i)))
       [2, 4, 0, 9, 6, 3, 7, 1, 8, 5])"
  by code_simp

lemma format_fallback:
  "format_startup_data clock get_fallback_data t = (Inr (formatted_fallback clock t), t + 10)"
  unfolding format_startup_data_scored [OF fallback_has_score] fallback_sort_desc fallback_length
  by (simp add: formatted_fallback_def stamped_def comp_def)

lemma formatted_fallback_length: "length (formatted_fallback clock t) = 10"
  by (simp add: formatted_fallback_def)

lemma formatted_fallback_scores: "map (\<lambda>r. map_of r ''score'') (formatted_fallback clock t) =
  map (\<lambda>n. Some (PInt n)) [92, 88, 85, 84, 82, 80, 79, 78, 76, 75]"
proof -
  have "map (\<lambda>i. map_of (get_fallback_data ! i) ''score'') [2, 4, 0, 9, 6, 3, 7, 1, 8, 5]
     = map (\<lambda>n. Some (PInt n)) [92, 88, 85, 84, 82, 80, 79, 78, 76, 75]"
    by code_simp
  then show ?thesis
    by (simp add: formatted_fallback_def dict_set_def update_conv comp_def)
qed

lemma delete_set_fresh:
  "map_of d ''timestamp'' = None \<Longrightarrow> AList.delete ''timestamp'' (dict_set d ''timestamp'' v) = d"
  by (simp add: dict_set_def delete_update_same delete_notin_dom map_of_eq_None_iff AList.delete_id)

lemma formatted_fallback_fields: "map (AList.delete ''timestamp'') (formatted_fallback clock t) =
    map (nth get_fallback_data) [2, 4, 0, 9, 6, 3, 7, 1, 8, 5]"
proof -
  have "\<forall>i\<in>set [2, 4, 0, 9, 6, 3, 7, 1, 8, 5]. map_of (get_fallback_data ! i) ''timestamp'' = None"
    by code_simp
  then show ?thesis
    by (simp add: formatted_fallback_def delete_set_fresh comp_def)
qed

lemma validate_fallback: "validate_startups (map PDict get_fallback_data) = get_fallback_data"
  by code_simp

text \<open>
  C7. Formatting the fallback catalog returns exactly ten records: the ten entries of the catalog
  with every field as it was and the key timestamp added, in the order of the scores 92, 88, 85,
  84, 82, 80, 79, 78, 76, 75. The validation loop leaves the catalog as it is, so the
  Validator/Formatter returns the same records.
\<close>

theorem fallback_round_trip:
  "format_startup_data clock get_fallback_data t = (Inr (formatted_fallback clock t), t + 10)
   \<and> validator_formatter clock (map PDict get_fallback_data) t
       = (Inr (formatted_fallback clock t), t + 10)
   \<and> length (formatted_fallback clock t) = 10
   \<and> map (\<lambda>r. map_of r ''score'') (formatted_fallback clock t)
       = map (\<lambda>n. Some (PInt n)) [92, 88, 85, 84, 82, 80, 79, 78, 76, 75]
   \<and> map (AList.delete ''timestamp'') (formatted_fallback clock t)
       = map (nth get_fallback_data) [2, 4, 0, 9, 6, 3, 7, 1, 8, 5]"
  unfolding validator_formatter_def validate_fallback
  using format_fallback [of clock t] formatted_fallback_length [of clock t]
    formatted_fallback_scores [of clock t] formatted_fallback_fields [of clock t]
  by simp

section \<open>Properties of the parser and of the orchestrator\<close>


lemma acme_no_brackets: "re_search_brackets acme_text = None"
  by code_simp

lemma entry_startup_Some:
  assumes "entry_startup entry = Some d"
  shows "\<exists>a b c e. d = [(''name'', a), (''description'', b), (''growth_reason'', c),
      (''source_link'', e), (''sector'', PStr ''Technology''),
      (''funding_stage'', PStr ''Early Stage''), (''signal_type'', PStr ''News''),
      (''score'', PInt 75)]"
proof (cases "search_label ''Name'' entry")
  case None
  with assms show ?thesis by (simp add: entry_startup_def Let_def)
next
  case (Some name)
  with assms have "d = [(''name'', PStr (strip name)),
      (''description'', group_or (search_label ''Description'' entry) ''No description''),
      (''growth_reason'', group_or (search_label ''Reason'' entry) ''Growth potential detected''),
      (''source_link'', group_or (search_label ''Source'' entry) ''https://example.com''),
      (''sector'', PStr ''Technology''),
      (''funding_stage'', PStr ''Early Stage''), (''signal_type'', PStr ''News''),
      (''score'', PInt 75)]"
    by (simp add: entry_startup_def Let_def)
  then show ?thesis by blast
qed

lemma validated_startup_complete:
  "validated_startup [(''name'', a), (''description'', b), (''growth_reason'', c),
      (''source_link'', e), (''sector'', f), (''funding_stage'', g), (''signal_type'', h),
      (''score'', i)]
   = [(''name'', a), (''description'', b), (''growth_reason'', c),
      (''source_link'', e), (''sector'', f), (''funding_stage'', g), (''signal_type'', h),
      (''score'', i)]"
  by (simp add: validated_startup_def dict_get_def)

lemma validated_entry: "entry_startup entry = Some d \<Longrightarrow> validated_startup d = d"
  using entry_startup_Some [of entry d] validated_startup_complete by auto



lemma validate_parse_entries:
  "validate_startups (map PDict (parse_entries entries)) = parse_entries entries"
proof (induction entries)
  case Nil
  show ?case by simp
next
  case (Cons e entries)
  show ?case
  proof (cases "entry_startup e")
    case None
    with Cons show ?thesis by simp
  next
    case (Some d)
    with Cons validated_entry [OF Some] show ?thesis by simp
  qed
qed

lemma parse_no_brackets:
  "re_search_brackets text = None \<Longrightarrow>
   parse_saas_startups_response loads text = Inr (parse_structured_text text)"
  by (simp add: parse_saas_startups_response_def parse_structured_text_def validate_parse_entries)

lemma parse_decode_error:
  "re_search_brackets text = Some js \<Longrightarrow> loads js = Inl e \<Longrightarrow>
   e = JSONDecodeError \<or> e = AttributeError \<Longrightarrow>
   parse_saas_startups_response loads text = Inr get_fallback_data"
  by (simp add: parse_saas_startups_response_def validate_fallback)

lemma parse_decoded_list:
  "re_search_brackets text = Some js \<Longrightarrow> loads js = Inr (PList entries) \<Longrightarrow>
   parse_saas_startups_response loads text = Inr (validate_startups entries)"
  by (simp add: parse_saas_startups_response_def)

text \<open>
  C1 (as amended). Tier 2 is attempted only when the text holds no bracket pair, and then the
  parser returns what it extracts. When a bracket pair is found and the decoder raises a decode
  error, the error is caught and the parser returns the fallback catalog; tier 2 is not
  attempted. When the decoder returns an array the parser returns its validated mappings, the
  empty sequence for the empty array. In each of these cases the parser returns and does not
  raise.
\<close>

theorem parse_response_cases:
  "(re_search_brackets text = None \<longrightarrow>
      parse_saas_startups_response loads text = Inr (parse_structured_text text))
   \<and> (re_search_brackets text = Some js \<and> loads js = Inl e
        \<and> (e = JSONDecodeError \<or> e = AttributeError) \<longrightarrow>
      parse_saas_startups_response loads text = Inr get_fallback_data)
   \<and> (re_search_brackets text = Some js \<and> loads js = Inr (PList entries) \<longrightarrow>
      parse_saas_startups_response loads text = Inr (validate_startups entries))
   \<and> (re_search_brackets text = Some js \<and> loads js = Inr (PList []) \<longrightarrow>
      parse_saas_startups_response loads text = Inr [])"
  using parse_no_brackets [of "text" loads] parse_decode_error [of "text" js loads e]
    parse_decoded_list [of "text" js loads entries] parse_decoded_list [of "text" js loads "[]"]
  by simp

lemma draft_brackets: "re_search_brackets ''[draft]'' = Some ''[draft]''"
  by code_simp

lemma empty_brackets: "re_search_brackets ''[]'' = Some ''[]''"
  by code_simp

lemma draft_no_entries: "parse_structured_text ''[draft]'' = []"
  by code_simp

theorem parse_response_cases_witness:
  "parse_saas_startups_response loads_sample ''[draft]'' = Inr get_fallback_data
   \<and> parse_saas_startups_response loads_sample ''[]'' = Inr []
   \<and> parse_saas_startups_response loads_sample acme_text = Inr (parse_structured_text acme_text)"
proof -
  have f: "loads_sample ''[draft]'' = Inl JSONDecodeError" by (simp add: loads_sample_def)
  have g: "loads_sample ''[]'' = Inr (PList [])" by (simp add: loads_sample_def)
  from parse_response_cases [of "''[draft]''" loads_sample "''[draft]''" JSONDecodeError]
    draft_brackets f
  have a: "parse_saas_startups_response loads_sample ''[draft]'' = Inr get_fallback_data"
    by simp
  from parse_response_cases [of "''[]''" loads_sample "''[]''" JSONDecodeError "[]"]
    empty_brackets g
  have b: "parse_saas_startups_response loads_sample ''[]'' = Inr []"
    by simp
  from parse_response_cases [of acme_text loads_sample] acme_no_brackets
  have c: "parse_saas_startups_response loads_sample acme_text = Inr (parse_structured_text acme_text)"
    by simp
  from a b c show ?thesis by simp
qed

text \<open>
  C1 as stated fails on the text \<^verbatim>\<open>[draft]\<close>: decoding raises, loose extraction finds no
  entry, and the parser returns the ten records of the fallback catalog, not the empty sequence.
\<close>

theorem decode_error_counterexample:
  "re_search_brackets ''[draft]'' = Some ''[draft]''
   \<and> loads_sample ''[draft]'' = Inl JSONDecodeError
   \<and> parse_structured_text ''[draft]'' = []
   \<and> parse_saas_startups_response loads_sample ''[draft]'' = Inr get_fallback_data
   \<and> length get_fallback_data = 10"
  using draft_brackets draft_no_entries fallback_length
    parse_decode_error [OF draft_brackets, of loads_sample JSONDecodeError]
  by (simp add: loads_sample_def)



lemma scan_try_cases:
  "(\<exists>out t'. scan_try asked loads clock t = (Inr out, t'))
   \<or> (\<exists>e t'. scan_try asked loads clock t = (Inl e, t'))"
  by (cases "scan_try asked loads clock t", cases "fst (scan_try asked loads clock t)") auto

text \<open>
  C3. Whatever the client and the decoder do, the scan returns a sequence and raises nothing.
  Without a client, and when the call of the client raises, it returns the formatted fallback
  catalog, which is the Validator/Formatter applied to the catalog; without the key timestamp
  its records are the entries of the catalog in score order, whatever the clock.
\<close>

theorem scan_never_raises:
  "(\<exists>out t'. scan_for_startups client loads clock t = (Inr out, t'))
   \<and> scan_for_startups None loads clock t = (Inr (formatted_fallback clock t), t + 10)
   \<and> scan_for_startups (Some (Inl e)) loads clock t = (Inr (formatted_fallback clock t), t + 10)
   \<and> (Inr (formatted_fallback clock t), t + 10)
       = validator_formatter clock (map PDict get_fallback_data) t
   \<and> map (AList.delete ''timestamp'') (formatted_fallback clock t)
       = map (nth get_fallback_data) [2, 4, 0, 9, 6, 3, 7, 1, 8, 5]"
proof -
  have a: "\<exists>out t'. scan_for_startups client loads clock t = (Inr out, t')"
  proof (cases client)
    case None
    then show ?thesis by (simp add: scan_for_startups_def format_fallback)
  next
    case (Some asked)
    from scan_try_cases [of asked loads clock t] show ?thesis
    proof
      assume "\<exists>out t'. scan_try asked loads clock t = (Inr out, t')"
      with Some show ?thesis by (auto simp: scan_for_startups_def)
    next
      assume "\<exists>e t'. scan_try asked loads clock t = (Inl e, t')"
      with Some show ?thesis by (auto simp: scan_for_startups_def format_fallback)
    qed
  qed
  have b: "scan_for_startups None loads clock t = (Inr (formatted_fallback clock t), t + 10)"
    by (simp add: scan_for_startups_def format_fallback)
  have c: "scan_for_startups (Some (Inl e)) loads clock t
      = (Inr (formatted_fallback clock t), t + 10)"
    by (simp add: scan_for_startups_def scan_try_def format_fallback)
  have d: "(Inr (formatted_fallback clock t), t + 10)
       = validator_formatter clock (map PDict get_fallback_data) t"
    by (simp add: validator_formatter_def validate_fallback format_fallback)
  from a b c d formatted_fallback_fields [of clock t] show ?thesis by simp
qed

section \<open>Properties of the sort on ordered keys\<close>

lemma insort_desc_mset: "insort_desc x ys = Inr zs \<Longrightarrow> mset zs = add_mset x (mset ys)"
proof (induction ys arbitrary: zs)
  case Nil
  then show ?case by auto
next
  case (Cons y ys)
  show ?case
  proof (cases "py_lt (fst x) (fst y)")
    case (Inl e)
    with Cons.prems show ?thesis by simp
  next
    case (Inr lt)
    show ?thesis
    proof (cases lt)
      case True
      with Inr Cons.prems obtain ws where w: "insort_desc x ys = Inr ws" and z: "zs = y # ws"
        by (cases "insort_desc x ys") auto
      from Cons.IH [OF w] z show ?thesis by simp
    next
      case False
      with Inr Cons.prems have "zs = x # y # ys" by simp
      then show ?thesis by simp
    qed
  qed
qed

lemma sort_desc_mset: "sort_desc xs = Inr ys \<Longrightarrow> mset ys = mset xs"
proof (induction xs arbitrary: ys)
  case Nil
  then show ?case by auto
next
  case (Cons x xs)
  then obtain ws where w: "sort_desc xs = Inr ws" and i: "insort_desc x ws = Inr ys"
    by (cases "sort_desc xs") auto
  from Cons.IH [OF w] insort_desc_mset [OF i] show ?case by simp
qed






lemma str_lt_less: "str_lt a b = (a < b)"
  by (induction a b rule: str_lt.induct) (simp_all add: less_char_def)

lemma ordered_by_str:
  "\<forall>a\<in>K. is_text a \<Longrightarrow> ordered_by text_of K"
proof (unfold ordered_by_def, intro ballI)
  fix a b assume "\<forall>a\<in>K. is_text a" "a \<in> K" "b \<in> K"
  then obtain s s' where "a = PStr s" "b = PStr s'"
    by (cases a; cases b) (auto simp: is_text_def)
  then show "py_lt a b = Inr (text_of a < text_of b)"
    by (simp add: text_of_def str_lt_less)
qed

lemma score_keys_Inr: "score_keys xs = Inr ks \<Longrightarrow> map snd ks = xs"
proof (induction xs arbitrary: ks)
  case Nil
  then show ?case by simp
next
  case (Cons x xs)
  from Cons.prems obtain k where k: "map_of x ''score'' = Some k"
    by (cases "map_of x ''score''") simp_all
  with Cons.prems obtain ks' where ks': "score_keys xs = Inr ks'" and e: "ks = (k, x) # ks'"
    by (cases "score_keys xs") auto
  from Cons.IH [OF ks'] e show ?case by simp
qed

lemma sort_by_score_mset:
  assumes "sort_by_score xs = Inr ys"
  shows "mset ys = mset xs"
proof -
  from assms obtain ks where ks: "score_keys xs = Inr ks"
    by (cases "score_keys xs") (simp_all add: sort_by_score_def)
  with assms obtain ss where ss: "sort_desc ks = Inr ss" and y: "ys = map snd ss"
    by (cases "sort_desc ks") (auto simp: sort_by_score_def)
  from sort_desc_mset [OF ss] have "mset (map snd ss) = mset (map snd ks)"
    by simp
  with y score_keys_Inr [OF ks] show ?thesis by simp
qed

section \<open>Properties of the formatter on any input\<close>



lemma snd_enumerate: "snd ` set (enumerate n xs) = set xs"
  using set_map [of snd "enumerate n xs"] by simp


lemma get_lower_cases:
  "(\<exists>s. dict_get d k (PStr []) = PStr s \<and> get_lower d k = Inr (lower s))
   \<or> get_lower d k = Inl AttributeError"
  by (cases "dict_get d k (PStr [])") (simp_all add: get_lower_def)

lemma calculate_growth_score_range:
  assumes "calculate_growth_score x = Inr n"
  shows "0 \<le> n \<and> n \<le> 100"
proof -
  from get_lower_cases [of x "''funding_stage''"] obtain fs
    where fs: "dict_get x ''funding_stage'' (PStr []) = PStr fs"
    using assms by (auto simp: calculate_growth_score_def)
  then have g1: "get_lower x ''funding_stage'' = Inr (lower fs)" by (rule get_lower_str)
  from get_lower_cases [of x "''signal_type''"] obtain st
    where st: "dict_get x ''signal_type'' (PStr []) = PStr st"
    using assms g1 by (auto simp: calculate_growth_score_def Let_def)
  then have g2: "get_lower x ''signal_type'' = Inr (lower st)" by (rule get_lower_str)
  from get_lower_cases [of x "''sector''"] obtain se
    where se: "dict_get x ''sector'' (PStr []) = PStr se"
    using assms g1 g2 by (auto simp: calculate_growth_score_def Let_def)
  from calculate_growth_score_strs [OF fs st se] assms
  have "n = heuristic_score_spec fs st se" by simp
  with heuristic_score_spec_range [of fs st se] show ?thesis by simp
qed

lemma with_score_scored:
  assumes "with_score x = Inr sx"
  shows "sx = scored x"
proof (cases "dict_has x ''score''")
  case True
  with assms show ?thesis by (simp add: with_score_def scored_def)
next
  case False
  with assms obtain n where n: "calculate_growth_score x = Inr n"
    and sx: "sx = dict_set x ''score'' (PInt n)"
    by (cases "calculate_growth_score x") (auto simp: with_score_def)
  with False show ?thesis by (simp add: scored_def)
qed

lemma with_score_range:
  assumes "with_score x = Inr sx" and "\<not> dict_has x ''score''"
  shows "\<exists>n. calculate_growth_score x = Inr n \<and> 0 \<le> n \<and> n \<le> 100"
proof -
  from assms obtain n where n: "calculate_growth_score x = Inr n"
    by (cases "calculate_growth_score x") (auto simp: with_score_def)
  from calculate_growth_score_range [OF n] n show ?thesis by blast
qed

lemma enumerate_shift:
  "map (\<lambda>ix. F (n + fst ix) (snd ix)) (enumerate m xs)
     = map (\<lambda>ix. F (fst ix) (snd ix)) (enumerate (n + m) xs)"
  by (induction xs arbitrary: m) (simp_all flip: add_Suc_right)

lemma format_loop_records:
  "format_loop clock xs t = (Inr ys, t') \<Longrightarrow>
   ys = map (\<lambda>ix. dict_set (scored (snd ix)) ''timestamp'' (PStr (clock (fst ix))))
          (enumerate t xs)
   \<and> (\<forall>x\<in>set xs. \<exists>sx. with_score x = Inr sx)"
proof (induction xs arbitrary: t ys t')
  case Nil
  then show ?case by auto
next
  case (Cons x xs)
  from Cons.prems obtain sx where sx: "with_score x = Inr sx"
    by (cases "with_score x") simp_all
  obtain res t2 where r: "format_loop clock xs (Suc t) = (res, t2)"
    by (cases "format_loop clock xs (Suc t)") auto
  with Cons.prems sx obtain zs where zs: "res = Inr zs"
    by (cases res) simp_all
  from Cons.prems sx r zs have y: "ys = dict_set sx ''timestamp'' (PStr (clock t)) # zs"
    by simp
  from r zs have "format_loop clock xs (Suc t) = (Inr zs, t2)" by simp
  from Cons.IH [OF this] have ih:
    "zs = map (\<lambda>ix. dict_set (scored (snd ix)) ''timestamp'' (PStr (clock (fst ix))))
          (enumerate (Suc t) xs)"
    and ih2: "\<forall>x\<in>set xs. \<exists>sx. with_score x = Inr sx"
    by simp_all
  from with_score_scored [OF sx] y ih have
    "ys = map (\<lambda>ix. dict_set (scored (snd ix)) ''timestamp'' (PStr (clock (fst ix))))
          (enumerate t (x # xs))"
    by simp
  with sx ih2 show ?case by auto
qed

lemma format_startup_data_records:
  assumes "format_startup_data clock xs t = (Inr out, t')"
  shows "mset out = mset (formatted_records clock t xs)"
    and "\<forall>x\<in>set xs. \<not> dict_has x ''score'' \<longrightarrow>
           (\<exists>n. calculate_growth_score x = Inr n \<and> 0 \<le> n \<and> n \<le> 100)"
proof -
  obtain res t2 where r: "format_loop clock xs t = (res, t2)"
    by (cases "format_loop clock xs t") auto
  with assms obtain ys where ys: "res = Inr ys"
    by (cases res) (simp_all add: format_startup_data_def)
  with assms r have s: "sort_by_score ys = Inr out"
    by (simp add: format_startup_data_def)
  from r ys have fl: "format_loop clock xs t = (Inr ys, t2)" by simp
  from format_loop_records [OF fl]
  have e: "ys = map (\<lambda>ix. dict_set (scored (snd ix)) ''timestamp'' (PStr (clock (fst ix))))
          (enumerate t xs)"
    and w: "\<forall>x\<in>set xs. \<exists>sx. with_score x = Inr sx"
    by simp_all
  have "map (\<lambda>ix. dict_set (scored (snd ix)) ''timestamp'' (PStr (clock (t + fst ix))))
          (enumerate 0 xs)
      = map (\<lambda>ix. dict_set (scored (snd ix)) ''timestamp'' (PStr (clock (fst ix))))
          (enumerate (t + 0) xs)"
    by (rule enumerate_shift
        [of "\<lambda>i x. dict_set (scored x) ''timestamp'' (PStr (clock i))" t 0 xs])
  with e have "ys = formatted_records clock t xs"
    by (simp add: formatted_records_def)
  with sort_by_score_mset [OF s] show "mset out = mset (formatted_records clock t xs)"
    by simp
  show "\<forall>x\<in>set xs. \<not> dict_has x ''score'' \<longrightarrow>
           (\<exists>n. calculate_growth_score x = Inr n \<and> 0 \<le> n \<and> n \<le> 100)"
    using w with_score_range by blast
qed

lemma scored_score:
  "map_of (dict_set (scored x) ''timestamp'' ts) ''score''
     = (if dict_has x ''score'' then map_of x ''score''
        else Some (PInt (case calculate_growth_score x of Inr n \<Rightarrow> n | Inl e \<Rightarrow> 0)))"
  by (simp add: scored_def dict_set_def update_conv)

section \<open>Properties of the validation loop\<close>

lemma validate_startups_entries:
  "validate_startups raw = map validated_startup (dict_entries raw)"
  by (induction raw rule: validate_startups.induct) (simp_all add: dict_entries_def)

lemma dict_entries_length: "length (dict_entries raw) \<le> length raw"
proof (induction raw)
  case Nil
  show ?case by (simp add: dict_entries_def)
next
  case (Cons v raw)
  then show ?case by (cases v) (simp_all add: dict_entries_def)
qed

lemma validated_has_score: "dict_has (validated_startup d) ''score''"
  by (simp add: validated_startup_def dict_has_def)

lemma validate_startups_has_score: "\<forall>x\<in>set (validate_startups raw). dict_has x ''score''"
  by (simp add: validate_startups_entries validated_has_score)

lemma stamped_validated:
  "dict_set (validated_startup d) ''timestamp'' ts = expected_record d ts"
  by (simp add: validated_startup_def dict_set_def expected_record_def text_defaults_def)

lemma enumerate_map:
  "map f (enumerate n (map g xs)) = map (\<lambda>ix. f (fst ix, g (snd ix))) (enumerate n xs)"
  by (induction xs arbitrary: n) simp_all

lemma formatted_validated:
  "formatted_input clock t (validate_startups raw) = expected_records clock t raw"
  unfolding formatted_input_def expected_records_def validate_startups_entries enumerate_map
  by (simp add: stamped_def stamped_validated)



lemma expected_record_fields:
  "map fst (expected_record d ts) = record_fields
   \<and> (\<forall>kd\<in>set text_defaults.
         map_of (expected_record d ts) (fst kd)
           = Some (case map_of d (fst kd) of None \<Rightarrow> PStr (snd kd) | Some v \<Rightarrow> v))
   \<and> map_of (expected_record d ts) ''score''
       = Some (case map_of d ''score'' of None \<Rightarrow> PInt 75 | Some v \<Rightarrow> v)
   \<and> map_of (expected_record d ts) ''timestamp'' = Some ts"
  by (simp add: expected_record_def record_fields_def text_defaults_def dict_get_def)

section \<open>Properties of the Validator/Formatter\<close>

lemma formatted_records_scored:
  assumes "\<forall>x\<in>set xs. dict_has x ''score''"
  shows "formatted_records clock t xs = formatted_input clock t xs"
  unfolding formatted_records_def formatted_input_def
proof (rule map_cong [OF refl])
  fix ix assume "ix \<in> set (enumerate 0 xs)"
  then have "snd ix \<in> set xs" using snd_enumerate [of 0 xs] by force
  with assms have "scored (snd ix) = snd ix" by (simp add: scored_def)
  then show "dict_set (scored (snd ix)) ''timestamp'' (PStr (clock (t + fst ix)))
      = stamped clock t ix"
    by (simp add: stamped_def)
qed

lemma expected_records_length: "length (expected_records clock t raw) = length (dict_entries raw)"
  by (simp add: expected_records_def)

lemma validator_formatter_returns:
  assumes "validator_formatter clock raw t = (Inr out, t')"
  shows "mset out = mset (expected_records clock t raw)"
    and "length out \<le> length raw"
proof -
  from assms have f: "format_startup_data clock (validate_startups raw) t = (Inr out, t')"
    by (simp add: validator_formatter_def)
  from format_startup_data_records(1) [OF f]
  show m: "mset out = mset (expected_records clock t raw)"
    by (simp add: formatted_records_scored [OF validate_startups_has_score] formatted_validated)
  from mset_eq_length [OF m] dict_entries_length [of raw]
  show "length out \<le> length raw" by (simp add: expected_records_length)
qed




text \<open>
  C2 (as amended). Whenever the Validator/Formatter returns, its records are, up to their
  order, the expected records of the entries of the input: the score of each is the score of
  its own entry, whatever value that is, and 75 when the entry has none. Whenever the formatter
  itself returns, its records are, up to their order, the mappings it received, stamped: a
  mapping with a score keeps it unchanged, and a mapping without score gets the score of the
  scorer, an integer within 0..100.
\<close>

theorem score_pass_through:
  "(validator_formatter clock raw t = (Inr out, t') \<longrightarrow>
      mset out = mset (expected_records clock t raw))
   \<and> (format_startup_data clock xs t = (Inr out, t') \<longrightarrow>
      mset out = mset (formatted_records clock t xs)
      \<and> (\<forall>x\<in>set xs. \<not> dict_has x ''score'' \<longrightarrow>
            (\<exists>n. calculate_growth_score x = Inr n \<and> 0 \<le> n \<and> n \<le> 100)))
   \<and> map_of (expected_record d ts) ''score''
       = Some (case map_of d ''score'' of None \<Rightarrow> PInt 75 | Some v \<Rightarrow> v)
   \<and> map_of (dict_set (scored x) ''timestamp'' ts) ''score''
       = (if dict_has x ''score'' then map_of x ''score''
          else Some (PInt (case calculate_growth_score x of Inr n \<Rightarrow> n | Inl e \<Rightarrow> 0)))"
proof (intro conjI impI)
  assume "validator_formatter clock raw t = (Inr out, t')"
  then show "mset out = mset (expected_records clock t raw)"
    by (rule validator_formatter_returns(1))
next
  assume "format_startup_data clock xs t = (Inr out, t')"
  then show "mset out = mset (formatted_records clock t xs)"
    by (rule format_startup_data_records(1))
next
  assume "format_startup_data clock xs t = (Inr out, t')"
  then show "\<forall>x\<in>set xs. \<not> dict_has x ''score'' \<longrightarrow>
            (\<exists>n. calculate_growth_score x = Inr n \<and> 0 \<le> n \<and> n \<le> 100)"
    by (rule format_startup_data_records(2))
next
  show "map_of (expected_record d ts) ''score''
       = Some (case map_of d ''score'' of None \<Rightarrow> PInt 75 | Some v \<Rightarrow> v)"
    using expected_record_fields [of d ts] by blast
next
  show "map_of (dict_set (scored x) ''timestamp'' ts) ''score''
       = (if dict_has x ''score'' then map_of x ''score''
          else Some (PInt (case calculate_growth_score x of Inr n \<Rightarrow> n | Inl e \<Rightarrow> 0)))"
    by (rule scored_score)
qed

lemma ranged_raw_formatted:
  "validator_formatter fixed_clock ranged_raw 0
     = (Inr [expected_record [(''score'', PInt 150)] (PStr (fixed_clock 1)),
             expected_record [(''score'', PInt 20)] (PStr (fixed_clock 0))], 2)"
  by code_simp

lemma unscored_formatted:
  "format_startup_data fixed_clock unscored 0
     = (Inr [[(''score'', PInt 150), (''timestamp'', PStr (fixed_clock 1))],
             [(''sector'', PStr ''Healthcare''), (''score'', PInt 57),
              (''timestamp'', PStr (fixed_clock 0))]], 2)"
  by code_simp

theorem score_pass_through_witness:
  "mset [expected_record [(''score'', PInt 150)] (PStr (fixed_clock 1)),
         expected_record [(''score'', PInt 20)] (PStr (fixed_clock 0))]
     = mset (expected_records fixed_clock 0 ranged_raw)
   \<and> mset [[(''score'', PInt 150), (''timestamp'', PStr (fixed_clock 1))],
            [(''sector'', PStr ''Healthcare''), (''score'', PInt 57),
             (''timestamp'', PStr (fixed_clock 0))]]
     = mset (formatted_records fixed_clock 0 unscored)
   \<and> (\<exists>n. calculate_growth_score [(''sector'', PStr ''Healthcare'')] = Inr n
          \<and> 0 \<le> n \<and> n \<le> 100)"
proof -
  let ?out1 = "[expected_record [(''score'', PInt 150)] (PStr (fixed_clock 1)),
         expected_record [(''score'', PInt 20)] (PStr (fixed_clock 0))]"
  let ?out2 = "[[(''score'', PInt 150), (''timestamp'', PStr (fixed_clock 1))],
            [(''sector'', PStr ''Healthcare''), (''score'', PInt 57),
             (''timestamp'', PStr (fixed_clock 0))]]"
  from score_pass_through [of fixed_clock ranged_raw 0 ?out1 2 "[]"] ranged_raw_formatted
  have a: "mset ?out1 = mset (expected_records fixed_clock 0 ranged_raw)"
    by blast
  from score_pass_through [of fixed_clock "[]" 0 ?out2 2 unscored] unscored_formatted
  have b: "mset ?out2 = mset (formatted_records fixed_clock 0 unscored)"
    and c: "\<forall>x\<in>set unscored. \<not> dict_has x ''score'' \<longrightarrow>
            (\<exists>n. calculate_growth_score x = Inr n \<and> 0 \<le> n \<and> n \<le> 100)"
    by blast+
  have "[(''sector'', PStr ''Healthcare'')] \<in> set unscored" by (simp add: unscored_def)
  moreover have "\<not> dict_has [(''sector'', PStr ''Healthcare'')] ''score''"
    by (simp add: dict_has_def)
  ultimately have "\<exists>n. calculate_growth_score [(''sector'', PStr ''Healthcare'')] = Inr n
          \<and> 0 \<le> n \<and> n \<le> 100"
    using c by blast
  with a b show ?thesis by blast
qed

text \<open>
  C2 as stated fails: a raw mapping with score 150 leaves the Validator/Formatter with
  score 150.
\<close>

theorem score_out_of_range_counterexample:
  "validator_formatter fixed_clock [PDict [(''score'', PInt 150)]] 0
     = (Inr [[(''name'', PStr ''Unknown Startup''),
              (''description'', PStr ''No description available''),
              (''growth_reason'', PStr ''Growth signals detected''),
              (''source_link'', PStr ''https://example.com''),
              (''sector'', PStr ''Technology''),
              (''funding_stage'', PStr ''Early Stage''),
              (''signal_type'', PStr ''News''),
              (''score'', PInt 150),
              (''timestamp'', PStr (fixed_clock 0))]], 1)
   \<and> \<not> (150 :: int) \<le> 100"
  by code_simp









lemma sample_sorted_scores:
  "map (\<lambda>r. (map_of r ''name'', map_of r ''sector'', map_of r ''score''))
     (case fst (validator_formatter fixed_clock sample_raw 0) of Inr out \<Rightarrow> out | Inl e \<Rightarrow> [])
   = [(Some (PStr ''Unknown Startup''), Some (PStr ''Technology''), Some (PInt 90)),
      (Some (PStr ''Acme''), Some (PStr ''Technology''), Some (PInt 80)),
      (Some (PStr ''Unknown Startup''), Some (PStr ''Fintech''), Some (PInt 80)),
      (Some (PStr ''Unknown Startup''), Some (PStr ''Technology''), Some (PInt 75))]"
  by code_simp


section \<open>Properties of the filter\<close>

lemma get_lower_Inr:
  "get_lower d k = Inr v \<Longrightarrow> v = lower (text_of (dict_get d k (PStr [])))"
  by (cases "dict_get d k (PStr [])") (simp_all add: get_lower_def text_of_def)

lemma get_lower_is_text:
  "is_text (dict_get d k (PStr [])) \<Longrightarrow> \<exists>v. get_lower d k = Inr v"
  by (cases "dict_get d k (PStr [])") (simp_all add: get_lower_def is_text_def)

lemma filter_field_Inr:
  "filter_field k crit xs = Inr out \<Longrightarrow>
   out = filter (\<lambda>d. lower (text_of (dict_get d k (PStr []))) = lower crit) xs"
proof (induction xs arbitrary: out)
  case Nil
  then show ?case by simp
next
  case (Cons x xs)
  from Cons.prems obtain v where v: "get_lower x k = Inr v"
    by (cases "get_lower x k") simp_all
  with Cons.prems obtain kept where kept: "filter_field k crit xs = Inr kept"
    and out: "out = (if v = lower crit then x # kept else kept)"
    by (cases "filter_field k crit xs") auto
  from Cons.IH [OF kept] get_lower_Inr [OF v] out show ?case by simp
qed

lemma filter_field_typed:
  "\<forall>d\<in>set xs. is_text (dict_get d k (PStr [])) \<Longrightarrow> \<exists>out. filter_field k crit xs = Inr out"
proof (induction xs)
  case Nil
  show ?case by simp
next
  case (Cons x xs)
  then obtain kept where kept: "filter_field k crit xs = Inr kept" by auto
  from Cons.prems get_lower_is_text [of x k] obtain v where "get_lower x k = Inr v" by auto
  with kept show ?case by simp
qed

lemma py_ge_num: "py_num a \<noteq> None \<Longrightarrow> \<exists>ok. py_ge a (PInt m) = Inr ok"
  by (cases a) (simp_all add: num_ge_def)


lemma filter_min_score_Inr:
  "filter_min_score m xs = Inr out \<Longrightarrow> out = filter (score_at_least m) xs"
proof (induction xs arbitrary: out)
  case Nil
  then show ?case by simp
next
  case (Cons x xs)
  from Cons.prems obtain ok where ok: "py_ge (dict_get x ''score'' (PInt 0)) (PInt m) = Inr ok"
    by (cases "py_ge (dict_get x ''score'' (PInt 0)) (PInt m)") simp_all
  with Cons.prems obtain kept where kept: "filter_min_score m xs = Inr kept"
    and out: "out = (if ok then x # kept else kept)"
    by (cases "filter_min_score m xs") auto
  from ok have "score_at_least m x = ok" by (simp add: score_at_least_def)
  with Cons.IH [OF kept] out show ?case by simp
qed

lemma filter_min_score_typed:
  "\<forall>d\<in>set xs. py_num (dict_get d ''score'' (PInt 0)) \<noteq> None \<Longrightarrow>
   \<exists>out. filter_min_score m xs = Inr out"
proof (induction xs)
  case Nil
  show ?case by simp
next
  case (Cons x xs)
  then obtain kept where kept: "filter_min_score m xs = Inr kept" by auto
  from Cons.prems py_ge_num [of "dict_get x ''score'' (PInt 0)" m]
  obtain ok where "py_ge (dict_get x ''score'' (PInt 0)) (PInt m) = Inr ok" by auto
  with kept show ?case by simp
qed

lemma filter_min_score_all:
  "\<forall>d\<in>set xs. score_at_least m d \<Longrightarrow> filter_min_score m xs = Inr xs"
  by (induction xs) (simp_all add: score_at_least_def)

lemma filter_optional_Inr:
  "filter_optional k crit xs = Inr out \<Longrightarrow> out = filter (\<lambda>d. matches crit d k) xs"
  by (cases "criterion_given crit")
    (simp_all add: filter_optional_def matches_def filter_field_Inr)

lemma filter_optional_typed:
  "\<forall>d\<in>set xs. is_text (dict_get d k (PStr [])) \<Longrightarrow> \<exists>out. filter_optional k crit xs = Inr out"
  by (cases "criterion_given crit") (simp_all add: filter_optional_def filter_field_typed)

lemma filter_startups_Inr:
  assumes "filter_startups startups sector funding_stage signal_type min_score = Inr out"
  shows "out = filter (keeps sector funding_stage signal_type min_score) startups"
proof -
  from assms obtain a where a: "filter_optional ''sector'' sector startups = Inr a"
    by (cases "filter_optional ''sector'' sector startups") (simp_all add: filter_startups_def)
  with assms obtain b where b: "filter_optional ''funding_stage'' funding_stage a = Inr b"
    by (cases "filter_optional ''funding_stage'' funding_stage a") (simp_all add: filter_startups_def)
  with assms a obtain c where c: "filter_optional ''signal_type'' signal_type b = Inr c"
    by (cases "filter_optional ''signal_type'' signal_type b") (simp_all add: filter_startups_def)
  with assms a b have d: "filter_min_score min_score c = Inr out"
    by (simp add: filter_startups_def)
  from filter_optional_Inr [OF a] filter_optional_Inr [OF b] filter_optional_Inr [OF c]
    filter_min_score_Inr [OF d]
  have "out = filter (score_at_least min_score)
      (filter (\<lambda>d. matches signal_type d ''signal_type'')
        (filter (\<lambda>d. matches funding_stage d ''funding_stage'')
          (filter (\<lambda>d. matches sector d ''sector'') startups)))"
    by simp
  also have "\<dots> = filter (keeps sector funding_stage signal_type min_score) startups"
    unfolding filter_filter keeps_def by (rule filter_cong) auto
  finally show ?thesis .
qed

lemma filter_startups_typed:
  assumes "\<forall>d\<in>set startups. well_typed d"
  shows "\<exists>out. filter_startups startups sector funding_stage signal_type min_score = Inr out"
proof -
  from assms filter_optional_typed [of startups "''sector''" sector]
  obtain a where a: "filter_optional ''sector'' sector startups = Inr a"
    by (auto simp: well_typed_def)
  from filter_optional_Inr [OF a] have sa: "set a \<subseteq> set startups" by auto
  with assms filter_optional_typed [of a "''funding_stage''" funding_stage]
  obtain b where b: "filter_optional ''funding_stage'' funding_stage a = Inr b"
    by (auto simp: well_typed_def)
  from filter_optional_Inr [OF b] sa have sb: "set b \<subseteq> set startups" by auto
  with assms filter_optional_typed [of b "''signal_type''" signal_type]
  obtain c where c: "filter_optional ''signal_type'' signal_type b = Inr c"
    by (auto simp: well_typed_def)
  from filter_optional_Inr [OF c] sb have sc: "set c \<subseteq> set startups" by auto
  with assms filter_min_score_typed [of c min_score]
  obtain d where d: "filter_min_score min_score c = Inr d"
    by (auto simp: well_typed_def)
  from a b c d show ?thesis by (simp add: filter_startups_def)
qed

lemma filter_startups_typed_keeps:
  assumes "\<forall>d\<in>set startups. well_typed d"
  shows "filter_startups startups sector funding_stage signal_type min_score
        = Inr (filter (keeps sector funding_stage signal_type min_score) startups)"
proof -
  from filter_startups_typed [OF assms, of sector funding_stage signal_type min_score]
  obtain res where
    res: "filter_startups startups sector funding_stage signal_type min_score = Inr res"
    by blast
  from filter_startups_Inr [OF res] res show ?thesis by simp
qed

lemma filter_noop:
  assumes "\<not> criterion_given sector" "\<not> criterion_given funding_stage"
    "\<not> criterion_given signal_type"
  shows "(filter_startups startups sector funding_stage signal_type min_score = Inr startups)
     = (\<forall>d\<in>set startups. score_at_least min_score d)"
proof
  assume "filter_startups startups sector funding_stage signal_type min_score = Inr startups"
  from filter_startups_Inr [OF this]
  have "filter (keeps sector funding_stage signal_type min_score) startups = startups" by simp
  then have "\<forall>d\<in>set startups. keeps sector funding_stage signal_type min_score d"
    by (simp add: filter_id_conv)
  then show "\<forall>d\<in>set startups. score_at_least min_score d"
    by (simp add: keeps_def)
next
  assume "\<forall>d\<in>set startups. score_at_least min_score d"
  from filter_min_score_all [OF this] assms
  show "filter_startups startups sector funding_stage signal_type min_score = Inr startups"
    by (simp add: filter_startups_def filter_optional_def)
qed

lemma criterion_given_iff:
  "criterion_given crit = (crit \<noteq> None \<and> crit \<noteq> Some [] \<and> crit \<noteq> Some ''All'')"
  by (cases crit) (simp_all add: criterion_given_def)

section \<open>Properties of the filter on objects\<close>

lemma keep_refs_pure:
  assumes nil: "pure [] = Inr []"
    and step: "\<And>x xs. pure (x # xs) =
      (case cond x of
         Inl e \<Rightarrow> Inl e
       | Inr ok \<Rightarrow>
           (case pure xs of
              Inl e \<Rightarrow> Inl e
            | Inr kept \<Rightarrow> Inr (if ok then x # kept else kept)))"
  shows "map_sum id (map (dict_objs h)) (keep_refs cond h refs) = pure (map (dict_objs h) refs)"
proof (induction refs)
  case Nil
  show ?case by (simp add: nil)
next
  case (Cons s refs)
  show ?case
  proof (cases "cond (dict_objs h s)")
    case (Inl e)
    then show ?thesis by (simp add: step)
  next
    case (Inr ok)
    show ?thesis
    proof (cases "keep_refs cond h refs")
      case (Inl e)
      with Cons have "pure (map (dict_objs h) refs) = Inl e" by simp
      with Inl Inr show ?thesis by (simp add: step)
    next
      case kept: (Inr kept)
      with Cons have "pure (map (dict_objs h) refs) = Inr (map (dict_objs h) kept)" by simp
      with kept Inr show ?thesis by (simp add: step)
    qed
  qed
qed

lemma keep_refs_field:
  "map_sum id (map (dict_objs h)) (keep_refs (field_is k crit) h refs)
     = filter_field k crit (map (dict_objs h) refs)"
proof (rule keep_refs_pure)
  show "filter_field k crit [] = Inr []" by simp
next
  fix x xs
  show "filter_field k crit (x # xs) =
      (case field_is k crit x of
         Inl e \<Rightarrow> Inl e
       | Inr ok \<Rightarrow>
           (case filter_field k crit xs of
              Inl e \<Rightarrow> Inl e
            | Inr kept \<Rightarrow> Inr (if ok then x # kept else kept)))"
    by (cases "get_lower x k") (simp_all add: field_is_def)
qed

lemma keep_refs_score:
  "map_sum id (map (dict_objs h)) (keep_refs (score_ge m) h refs)
     = filter_min_score m (map (dict_objs h) refs)"
proof (rule keep_refs_pure)
  show "filter_min_score m [] = Inr []" by simp
next
  fix x xs
  show "filter_min_score m (x # xs) =
      (case score_ge m x of
         Inl e \<Rightarrow> Inl e
       | Inr ok \<Rightarrow>
           (case filter_min_score m xs of
              Inl e \<Rightarrow> Inl e
            | Inr kept \<Rightarrow> Inr (if ok then x # kept else kept)))"
    by (simp add: score_ge_def)
qed

lemma frame_refl: "frame h h"
  by (simp add: frame_def)

lemma frame_trans: "frame h h1 \<Longrightarrow> frame h1 h2 \<Longrightarrow> frame h h2"
  by (auto simp: frame_def)

lemma frame_contents: "frame h h' \<Longrightarrow> a < next_list h \<Longrightarrow> contents h' a = contents h a"
  by (simp add: frame_def contents_def)

lemma frame_next: "frame h h' \<Longrightarrow> a < next_list h \<Longrightarrow> a < next_list h'"
  by (simp add: frame_def)

lemma new_list_frame:
  assumes "new_list h refs = (r, h')"
  shows "frame h h'" and "r < next_list h'" and "contents h' r = map (dict_objs h) refs"
  using assms by (auto simp: new_list_def frame_def contents_def)

lemma comprehension_step:
  assumes link: "\<And>refs. map_sum id (map (dict_objs h)) (keep_refs cond h refs)
      = pure (map (dict_objs h) refs)"
    and c: "comprehension cond h a = (res, h')"
  shows "frame h h'"
    and "map_sum id (contents h') res = pure (contents h a)"
    and "\<And>r. res = Inr r \<Longrightarrow> r < next_list h'"
proof -
  have l: "map_sum id (map (dict_objs h)) (keep_refs cond h (list_objs h a)) = pure (contents h a)"
    by (simp add: link contents_def)
  show "frame h h'" and "map_sum id (contents h') res = pure (contents h a)"
    and "\<And>r. res = Inr r \<Longrightarrow> r < next_list h'"
  proof (atomize (full), cases "keep_refs cond h (list_objs h a)")
    case (Inl e)
    with c have "res = Inl e" "h' = h" by (simp_all add: comprehension_def)
    with l Inl show "frame h h' \<and> map_sum id (contents h') res = pure (contents h a)
        \<and> (\<forall>r. res = Inr r \<longrightarrow> r < next_list h')"
      by (simp add: frame_refl)
  next
    case (Inr kept)
    obtain r h1 where n: "new_list h kept = (r, h1)" by (cases "new_list h kept") auto
    with c Inr have "res = Inr r" "h' = h1" by (simp_all add: comprehension_def)
    with l Inr new_list_frame [OF n]
    show "frame h h' \<and> map_sum id (contents h') res = pure (contents h a)
        \<and> (\<forall>r. res = Inr r \<longrightarrow> r < next_list h')"
      by simp
  qed
qed

lemma comprehension_optional_step:
  assumes c: "comprehension_optional k crit h a = (res, h')" and a: "a < next_list h"
  shows "frame h h'"
    and "map_sum id (contents h') res = filter_optional k crit (contents h a)"
    and "\<And>r. res = Inr r \<Longrightarrow> r < next_list h'"
proof -
  show "frame h h'" and "map_sum id (contents h') res = filter_optional k crit (contents h a)"
    and "\<And>r. res = Inr r \<Longrightarrow> r < next_list h'"
  proof (atomize (full), cases "criterion_given crit")
    case True
    with c have cc: "comprehension (field_is k (the crit)) h a = (res, h')"
      by (simp add: comprehension_optional_def)
    from comprehension_step [of h "field_is k (the crit)" "filter_field k (the crit)", OF _ cc]
      keep_refs_field [of h k "the crit"] True
    show "frame h h' \<and> map_sum id (contents h') res = filter_optional k crit (contents h a)
        \<and> (\<forall>r. res = Inr r \<longrightarrow> r < next_list h')"
      by (simp add: filter_optional_def)
  next
    case False
    with c have "res = Inr a" "h' = h" by (simp_all add: comprehension_optional_def)
    with False a
    show "frame h h' \<and> map_sum id (contents h') res = filter_optional k crit (contents h a)
        \<and> (\<forall>r. res = Inr r \<longrightarrow> r < next_list h')"
      by (simp add: filter_optional_def frame_refl)
  qed
qed

lemma filter_startups_heap_spec:
  assumes f: "filter_startups_heap h a sector funding_stage signal_type min_score = (res, h')"
    and a: "a < next_list h"
  shows "frame h h'
    \<and> map_sum id (contents h') res
        = filter_startups (contents h a) sector funding_stage signal_type min_score"
proof -
  obtain c h0 where n: "new_list h (list_objs h a) = (c, h0)"
    by (cases "new_list h (list_objs h a)") auto
  from new_list_frame [OF n] have f0: "frame h h0" and c0: "c < next_list h0"
    and cc: "contents h0 c = contents h a"
    by (simp_all add: contents_def)
  obtain r1 h1 where s1: "comprehension_optional ''sector'' sector h0 c = (r1, h1)"
    by (cases "comprehension_optional ''sector'' sector h0 c") auto
  from comprehension_optional_step [OF s1 c0] cc
  have f1: "frame h0 h1"
    and p1: "map_sum id (contents h1) r1 = filter_optional ''sector'' sector (contents h a)"
    and b1: "\<And>r. r1 = Inr r \<Longrightarrow> r < next_list h1"
    by simp_all
  show ?thesis
  proof (cases r1)
    case (Inl e)
    with f n s1 have "res = Inl e" "h' = h1" by (simp_all add: filter_startups_heap_def)
    with p1 Inl frame_trans [OF f0 f1] show ?thesis
      by (cases "filter_optional ''sector'' sector (contents h a)")
        (simp_all add: filter_startups_def)
  next
    case (Inr x1)
    obtain r2 h2 where s2:
      "comprehension_optional ''funding_stage'' funding_stage h1 x1 = (r2, h2)"
      by (cases "comprehension_optional ''funding_stage'' funding_stage h1 x1") auto
    from p1 Inr have q1: "filter_optional ''sector'' sector (contents h a) = Inr (contents h1 x1)"
      by simp
    from comprehension_optional_step [OF s2 b1 [OF Inr]]
    have f2: "frame h1 h2"
      and p2: "map_sum id (contents h2) r2
          = filter_optional ''funding_stage'' funding_stage (contents h1 x1)"
      and b2: "\<And>r. r2 = Inr r \<Longrightarrow> r < next_list h2"
      by simp_all
    have f02: "frame h h2" using f0 f1 f2 frame_trans by blast
    show ?thesis
    proof (cases r2)
      case (Inl e)
      with f n s1 s2 \<open>r1 = Inr x1\<close> have "res = Inl e" "h' = h2"
        by (simp_all add: filter_startups_heap_def)
      with p2 Inl q1 f02 show ?thesis
        by (cases "filter_optional ''funding_stage'' funding_stage (contents h1 x1)")
          (simp_all add: filter_startups_def)
    next
      case (Inr x2)
      note r2 = this
      obtain r3 h3 where s3:
        "comprehension_optional ''signal_type'' signal_type h2 x2 = (r3, h3)"
        by (cases "comprehension_optional ''signal_type'' signal_type h2 x2") auto
      from p2 r2 have q2: "filter_optional ''funding_stage'' funding_stage (contents h1 x1)
          = Inr (contents h2 x2)"
        by simp
      from comprehension_optional_step [OF s3 b2 [OF r2]]
      have f3: "frame h2 h3"
        and p3: "map_sum id (contents h3) r3
            = filter_optional ''signal_type'' signal_type (contents h2 x2)"
        and b3: "\<And>r. r3 = Inr r \<Longrightarrow> r < next_list h3"
        by simp_all
      have f03: "frame h h3" using f02 f3 frame_trans by blast
      show ?thesis
      proof (cases r3)
        case (Inl e)
        with f n s1 s2 s3 \<open>r1 = Inr x1\<close> r2 have "res = Inl e" "h' = h3"
          by (simp_all add: filter_startups_heap_def)
        with p3 Inl q1 q2 f03 show ?thesis
          by (cases "filter_optional ''signal_type'' signal_type (contents h2 x2)")
            (simp_all add: filter_startups_def)
      next
        case (Inr x3)
        note r3 = this
        from p3 r3 have q3: "filter_optional ''signal_type'' signal_type (contents h2 x2)
            = Inr (contents h3 x3)"
          by simp
        from f n s1 s2 s3 \<open>r1 = Inr x1\<close> r2 r3
        have s4: "comprehension (score_ge min_score) h3 x3 = (res, h')"
          by (simp add: filter_startups_heap_def)
        from comprehension_step [of h3 "score_ge min_score" "filter_min_score min_score",
            OF keep_refs_score s4]
        have f4: "frame h3 h'"
          and p4: "map_sum id (contents h') res = filter_min_score min_score (contents h3 x3)"
          by simp_all
        from q1 q2 q3 p4 frame_trans [OF f03 f4] show ?thesis
          by (simp add: filter_startups_def)
      qed
    qed
  qed
qed

text \<open>
  C8 (as amended). The filter writes no object that existed before the call: the input list
  object and the records are after the call what they were before, and the result is a new
  list object whose records are what the function on values returns. Whenever the filter
  returns, it returns exactly the records that match the criteria given and whose score is
  \<^verbatim>\<open>>=\<close> the minimum, in the order of the input; on well typed records it returns. A criterion
  is given when it is provided, not empty and not All. With no criterion given the filter
  returns the input as it is exactly when every score is \<^verbatim>\<open>>=\<close> the minimum.
\<close>

theorem filter_startups_keeps:
  "(filter_startups_heap h startups sector funding_stage signal_type min_score = (res, h')
      \<and> startups < next_list h \<longrightarrow>
      dict_objs h' = dict_objs h
      \<and> (\<forall>b<next_list h. list_objs h' b = list_objs h b)
      \<and> map_sum id (contents h') res
          = filter_startups (contents h startups) sector funding_stage signal_type min_score)
   \<and> (filter_startups xs sector funding_stage signal_type min_score = Inr out \<longrightarrow>
      out = filter (keeps sector funding_stage signal_type min_score) xs)
   \<and> ((\<forall>d\<in>set xs. well_typed d) \<longrightarrow>
      filter_startups xs sector funding_stage signal_type min_score
        = Inr (filter (keeps sector funding_stage signal_type min_score) xs))
   \<and> (\<not> criterion_given sector \<and> \<not> criterion_given funding_stage
        \<and> \<not> criterion_given signal_type \<longrightarrow>
      (filter_startups xs sector funding_stage signal_type min_score = Inr xs)
        = (\<forall>d\<in>set xs. score_at_least min_score d))
   \<and> criterion_given crit = (crit \<noteq> None \<and> crit \<noteq> Some [] \<and> crit \<noteq> Some ''All'')"
proof (intro conjI impI)
  assume a: "filter_startups_heap h startups sector funding_stage signal_type min_score = (res, h')
      \<and> startups < next_list h"
  from filter_startups_heap_spec [of h startups sector funding_stage signal_type min_score res h'] a
  have fr: "frame h h'"
    and c: "map_sum id (contents h') res
          = filter_startups (contents h startups) sector funding_stage signal_type min_score"
    by simp_all
  from fr show "dict_objs h' = dict_objs h" by (simp add: frame_def)
  from fr show "\<forall>b<next_list h. list_objs h' b = list_objs h b" by (simp add: frame_def)
  from c show "map_sum id (contents h') res
          = filter_startups (contents h startups) sector funding_stage signal_type min_score" .
next
  assume "filter_startups xs sector funding_stage signal_type min_score = Inr out"
  then show "out = filter (keeps sector funding_stage signal_type min_score) xs"
    by (rule filter_startups_Inr)
next
  assume "\<forall>d\<in>set xs. well_typed d"
  then show "filter_startups xs sector funding_stage signal_type min_score
        = Inr (filter (keeps sector funding_stage signal_type min_score) xs)"
    by (rule filter_startups_typed_keeps)
next
  assume "\<not> criterion_given sector \<and> \<not> criterion_given funding_stage
        \<and> \<not> criterion_given signal_type"
  then show "(filter_startups xs sector funding_stage signal_type min_score = Inr xs)
        = (\<forall>d\<in>set xs. score_at_least min_score d)"
    using filter_noop [of sector funding_stage signal_type xs min_score] by blast
next
  show "criterion_given crit = (crit \<noteq> None \<and> crit \<noteq> Some [] \<and> crit \<noteq> Some ''All'')"
    by (rule criterion_given_iff)
qed

lemma records_heap_contents: "contents records_heap 0 = scored_records"
  by code_simp

lemma records_heap_next: "0 < next_list records_heap"
  by (simp add: records_heap_def)

lemma records_heap_list: "list_objs records_heap 0 = [0, 1, 2]"
  by (simp add: records_heap_def)

lemma scored_records_fintech:
  "filter_startups scored_records (Some ''fintech'') None (Some ''All'') 0
     = Inr [[(''name'', PStr ''Acme''), (''sector'', PStr ''Fintech''), (''score'', PInt 90)],
            [(''name'', PStr ''Bolt''), (''sector'', PStr ''FINTECH'')]]"
  by code_simp

theorem filter_startups_keeps_witness:
  "list_objs (snd (filter_startups_heap records_heap 0 (Some ''fintech'') None (Some ''All'') 0)) 0
     = [0, 1, 2]
   \<and> dict_objs (snd (filter_startups_heap records_heap 0 (Some ''fintech'') None (Some ''All'') 0))
     = dict_objs records_heap
   \<and> map_sum id
        (contents (snd (filter_startups_heap records_heap 0 (Some ''fintech'') None (Some ''All'') 0)))
        (fst (filter_startups_heap records_heap 0 (Some ''fintech'') None (Some ''All'') 0))
     = Inr [[(''name'', PStr ''Acme''), (''sector'', PStr ''Fintech''), (''score'', PInt 90)],
            [(''name'', PStr ''Bolt''), (''sector'', PStr ''FINTECH'')]]"
proof -
  let ?X = "filter_startups_heap records_heap 0 (Some ''fintech'') None (Some ''All'') 0"
  have x: "?X = (fst ?X, snd ?X)" by simp
  from filter_startups_keeps [of records_heap 0 "Some ''fintech''" None "Some ''All''" 0
      "fst ?X" "snd ?X" "[]" "[]" None] x records_heap_next
  have d: "dict_objs (snd ?X) = dict_objs records_heap"
    and l: "\<forall>b<next_list records_heap. list_objs (snd ?X) b = list_objs records_heap b"
    and c: "map_sum id (contents (snd ?X)) (fst ?X)
          = filter_startups (contents records_heap 0) (Some ''fintech'') None (Some ''All'') 0"
    by blast+
  from l records_heap_next have "list_objs (snd ?X) 0 = list_objs records_heap 0" by blast
  with records_heap_list have l0: "list_objs (snd ?X) 0 = [0, 1, 2]" by simp
  from c have c0: "map_sum id (contents (snd ?X)) (fst ?X)
     = Inr [[(''name'', PStr ''Acme''), (''sector'', PStr ''Fintech''), (''score'', PInt 90)],
            [(''name'', PStr ''Bolt''), (''sector'', PStr ''FINTECH'')]]"
    by (simp only: records_heap_contents scored_records_fintech)
  from l0 d c0 show ?thesis by (intro conjI)
qed

text \<open>
  C8 as stated fails three times. With all-default arguments the filter drops a record whose
  score is -5, so the result is not the input. With a sector criterion it raises
  \<^verbatim>\<open>AttributeError\<close> on a record whose sector is null and returns nothing. And the empty
  criterion, which is provided and is not All, is not applied: a record of sector AI is kept.
\<close>

theorem negative_score_counterexample:
  "filter_startups [[(''name'', PStr ''Acme''), (''score'', PInt (- 5))]] None None None 0 = Inr []
   \<and> filter_startups [[(''name'', PStr ''Acme''), (''sector'', PNone)]] (Some ''AI'') None None 0
       = Inl AttributeError
   \<and> filter_startups [[(''name'', PStr ''Acme''), (''sector'', PStr ''AI'')]] (Some []) None None 0
       = Inr [[(''name'', PStr ''Acme''), (''sector'', PStr ''AI'')]]"
  by code_simp






end
